theory Spec2Isabelle
  imports Main "HOL-Library.AList"
begin

section \<open>Python values\<close>

text \<open>
  A raw record is what \<^verbatim>\<open>json.loads\<close> returns: \<^verbatim>\<open>None\<close>, a bool, an int, a float, a
  string, a list or a dict. A Python dict keeps its keys in insertion order, and
  \<^verbatim>\<open>d[k] = v\<close> replaces the value of an existing key in place or appends a new key:
  that is \<open>AList.update\<close> on an association list. A float is kept as its printed form
  (no arithmetic is done on floats here). Strings are lists of 8-bit characters;
  case folding is modelled on the ASCII letters.
\<close>

datatype json =
    JNull
  | JBool bool
  | JInt int
  | JFloat string
  | JStr string
  | JList "json list"
  | JObj "(string \<times> json) list"

type_synonym pydict = "(string \<times> json) list"

datatype exn =
    TypeError
  | AttributeError
  | KeyError
  | ValueError
  | JSONDecodeError
  | UnicodeDecodeError
  | ClientError
  | TimeoutError
  | ConnectivityError string
  | ProcessingError string
  | OtherException string

definition has_key :: "pydict \<Rightarrow> string \<Rightarrow> bool" where
  "has_key d k = (map_of d k \<noteq> None)"

text \<open>\<^verbatim>\<open>isinstance(v, int)\<close>: an int, or a bool (\<^verbatim>\<open>bool\<close> is a subclass of \<^verbatim>\<open>int\<close>,
  \<^verbatim>\<open>True == 1\<close> and \<^verbatim>\<open>hash(True) == hash(1)\<close>).\<close>

fun int_value :: "json \<Rightarrow> int option" where
  "int_value (JInt n) = Some n"
| "int_value (JBool b) = Some (if b then 1 else 0)"
| "int_value _ = None"

text \<open>\<^verbatim>\<open>x in some_dict\<close> hashes \<^verbatim>\<open>x\<close>; a list or a dict raises TypeError there.\<close>

fun hashable :: "json \<Rightarrow> bool" where
  "hashable (JList _) = False"
| "hashable (JObj _) = False"
| "hashable _ = True"

subsection \<open>String operations\<close>

definition upper_letters :: string where
  "upper_letters = ''ABCDEFGHIJKLMNOPQRSTUVWXYZ''"

definition lower_letters :: string where
  "lower_letters = ''abcdefghijklmnopqrstuvwxyz''"

definition lower_char :: "char \<Rightarrow> char" where
  "lower_char c = (case map_of (zip upper_letters lower_letters) c of Some d \<Rightarrow> d | None \<Rightarrow> c)"

text \<open>\<^verbatim>\<open>str.casefold()\<close> and \<^verbatim>\<open>str.lower()\<close> on strings of ASCII characters: the letters A to Z
  are folded and every other character is kept. Python also folds the cased characters
  outside ASCII; on strings that contain such characters the model differs from the code.\<close>

definition casefold :: "string \<Rightarrow> string" where
  "casefold s = map lower_char s"

text \<open>\<^verbatim>\<open>s.lstrip(c)\<close> for a one-character argument.\<close>

definition lstrip :: "char \<Rightarrow> string \<Rightarrow> string" where
  "lstrip c s = dropWhile (\<lambda>x. x = c) s"

text \<open>\<^verbatim>\<open>s.split(c)\<close>: the empty string gives \<^verbatim>\<open>['']\<close>, never the empty list.\<close>

fun split_on :: "char \<Rightarrow> string \<Rightarrow> string list" where
  "split_on c [] = [ [] ]"
| "split_on c (x # xs) =
     (if x = c then [] # split_on c xs
      else (case split_on c xs of
              [] \<Rightarrow> [ [x] ]
            | p # ps \<Rightarrow> (x # p) # ps))"

text \<open>\<^verbatim>\<open>sep.join(parts)\<close>.\<close>

fun join :: "string \<Rightarrow> string list \<Rightarrow> string" where
  "join sep [] = []"
| "join sep [p] = p"
| "join sep (p # q # ps) = p @ sep @ join sep (q # ps)"

section \<open>processor/sub/mapping.py\<close>

definition DEFAULT_SEVERITY_INFO :: string where
  "DEFAULT_SEVERITY_INFO = ''Informational''"

definition RESOURCE_ID_ATTRIBUTE :: string where
  "RESOURCE_ID_ATTRIBUTE = ''azure.resource.id''"

definition SUBSCRIPTION_ATTRIBUTE :: string where
  "SUBSCRIPTION_ATTRIBUTE = ''azure.subscription''"

definition RESOURCE_GROUP_ATTRIBUTE :: string where
  "RESOURCE_GROUP_ATTRIBUTE = ''azure.resource.group''"

definition RESOURCE_TYPE_ATTRIBUTE :: string where
  "RESOURCE_TYPE_ATTRIBUTE = ''azure.resource.type''"

definition RESOURCE_NAME_ATTRIBUTE :: string where
  "RESOURCE_NAME_ATTRIBUTE = ''azure.resource.name''"

definition log_level_to_severity_dict :: "(int \<times> string) list" where
  "log_level_to_severity_dict =
     [(1, ''Critical''), (2, ''Error''), (3, ''Warning''), (4, ''Informational'')]"

definition severity_to_log_level_dict :: "(string \<times> int) list" where
  "severity_to_log_level_dict = map (\<lambda>(k, v). (v, k)) log_level_to_severity_dict"

definition azure_level_properties :: "string list" where
  "azure_level_properties = [''Level'', ''level'']"

definition azure_properties_names :: "string list" where
  "azure_properties_names = [''properties'', ''EventProperties'']"

subsection \<open>extract_resource_id_attributes\<close>

text \<open>The body of the \<^verbatim>\<open>try\<close> for a string identifier. Nothing in it can raise: the
  indices 0 to 4 are read only after the length check, and \<^verbatim>\<open>parts[-1]\<close> is the last
  of at least seven parts. Logging is not modelled.\<close>

definition resource_type_parts_of :: "string list \<Rightarrow> string list" where
  "resource_type_parts_of resource_type_parts_with_parent =
     map snd (filter (\<lambda>(index, part). index = 0 \<or> index mod 2 \<noteq> 0)
                (enumerate 0 resource_type_parts_with_parent))"

definition resource_id_parts :: "string \<Rightarrow> string list" where
  "resource_id_parts resource_id = split_on CHR ''/'' (lstrip CHR ''/'' resource_id)"

definition extract_resource_id_str :: "pydict \<Rightarrow> string \<Rightarrow> pydict" where
  "extract_resource_id_str parsed_record resource_id =
     (let parsed1 = AList.update RESOURCE_ID_ATTRIBUTE (JStr resource_id) parsed_record;
          parts = resource_id_parts resource_id
      in if length parts < 7 then parsed1
         else if casefold (parts ! 0) \<noteq> ''subscriptions'' then parsed1
         else if casefold (parts ! 2) \<noteq> ''resourcegroups'' then parsed1
         else if casefold (parts ! 4) \<noteq> ''providers'' then parsed1
         else
           (let parsed2 = AList.update SUBSCRIPTION_ATTRIBUTE (JStr (parts ! 1)) parsed1;
                parsed3 = AList.update RESOURCE_GROUP_ATTRIBUTE (JStr (parts ! 3)) parsed2;
                parsed4 = AList.update RESOURCE_NAME_ATTRIBUTE (JStr (last parts)) parsed3;
                resource_type_parts_with_parent = butlast (drop 5 parts);
                resource_type_parts = resource_type_parts_of resource_type_parts_with_parent
            in AList.update RESOURCE_TYPE_ATTRIBUTE
                 (JStr (join ''/'' resource_type_parts)) parsed4))"

text \<open>The caller passes \<^verbatim>\<open>record["resourceId"]\<close>, any JSON value. For a value that is
  not a string, \<^verbatim>\<open>resource_id.lstrip\<close> raises AttributeError inside the \<^verbatim>\<open>try\<close>, after
  the identifier was stored; the handler then evaluates \<^verbatim>\<open>resource_id[:200]\<close>, which
  works for a list and raises out of the handler for every other type (TypeError;
  KeyError for a dict on recent interpreters).\<close>

fun extract_resource_id_attributes :: "pydict \<Rightarrow> json \<Rightarrow> exn + pydict" where
  "extract_resource_id_attributes parsed_record (JStr resource_id) =
     Inr (extract_resource_id_str parsed_record resource_id)"
| "extract_resource_id_attributes parsed_record (JList xs) =
     Inr (AList.update RESOURCE_ID_ATTRIBUTE (JList xs) parsed_record)"
| "extract_resource_id_attributes parsed_record v = Inl TypeError"

subsection \<open>extract_severity and map_to_severity\<close>

text \<open>\<^verbatim>\<open>record[level_property]\<close> raises KeyError for a missing key (handler: default
  severity). For a value that is neither int nor bool the value itself is stored, and the
  validity check \<^verbatim>\<open>parsed_record["severity"] not in severity_to_log_level_dict\<close> then
  hashes it: a list or dict raises TypeError, and the handler of \<^verbatim>\<open>except Exception\<close>
  overwrites the stored value with the default.\<close>

definition map_to_severity :: "pydict \<Rightarrow> pydict \<Rightarrow> string \<Rightarrow> pydict" where
  "map_to_severity record parsed_record level_property =
     (case map_of record level_property of
        None \<Rightarrow> AList.update ''severity'' (JStr DEFAULT_SEVERITY_INFO) parsed_record
      | Some raw_value \<Rightarrow>
          (case int_value raw_value of
             Some n \<Rightarrow>
               (let severity = (case map_of log_level_to_severity_dict n of
                                  Some s \<Rightarrow> s
                                | None \<Rightarrow> DEFAULT_SEVERITY_INFO)
                in AList.update ''severity'' (JStr severity) parsed_record)
           | None \<Rightarrow>
               (let parsed1 = AList.update ''severity'' raw_value parsed_record
                in if hashable raw_value then parsed1
                   else AList.update ''severity'' (JStr DEFAULT_SEVERITY_INFO) parsed1)))"

definition extract_severity :: "pydict \<Rightarrow> pydict \<Rightarrow> pydict" where
  "extract_severity record parsed_record =
     (case find (\<lambda>level. has_key record level) azure_level_properties of
        Some level_property \<Rightarrow> map_to_severity record parsed_record level_property
      | None \<Rightarrow> AList.update ''severity'' (JStr DEFAULT_SEVERITY_INFO) parsed_record)"

section \<open>Library functions taken as parameters\<close>

text \<open>
  The standard library and third-party calls whose results the pipeline only passes on:
  \<^verbatim>\<open>str(v)\<close> of a value that is not a string, \<^verbatim>\<open>json.dumps\<close>, \<^verbatim>\<open>json.loads\<close> (strict,
  and with \<^verbatim>\<open>strict=False\<close>; \<open>None\<close> is JSONDecodeError), \<^verbatim>\<open>jmespath.search\<close> (the
  result \<open>JNull\<close> is Python's \<^verbatim>\<open>None\<close>), and \<^verbatim>\<open>infer_monitored_entity_id\<close> of the module
  \<^verbatim>\<open>processor/sub/monitored_entity_id.py\<close>, which is imported by the processor and is
  not part of the sources at hand.
\<close>

record pylib =
  str_other :: "json \<Rightarrow> string"
  json_dumps :: "json \<Rightarrow> string"
  json_loads :: "string \<Rightarrow> json option"
  json_loads_lenient :: "string \<Rightarrow> json option"
  jmespath_search :: "string \<Rightarrow> json \<Rightarrow> exn + json"
  infer_monitored_entity_id :: "string \<Rightarrow> pydict \<Rightarrow> exn + pydict"

text \<open>\<^verbatim>\<open>str(v)\<close>: a string is returned as it is.\<close>

definition py_str :: "pylib \<Rightarrow> json \<Rightarrow> string" where
  "py_str lib v = (case v of JStr s \<Rightarrow> s | _ \<Rightarrow> str_other lib v)"

text \<open>\<^verbatim>\<open>s.startswith(p)\<close> and \<^verbatim>\<open>sub in s\<close> on strings.\<close>

definition startswith :: "string \<Rightarrow> string \<Rightarrow> bool" where
  "startswith s p = (take (length p) s = p)"

fun contains_str :: "string \<Rightarrow> string \<Rightarrow> bool" where
  "contains_str [] sub = (sub = [])"
| "contains_str (c # cs) sub = (startswith (c # cs) sub \<or> contains_str cs sub)"

text \<open>\<^verbatim>\<open>s[:n]\<close>: a negative bound counts from the end of the string.\<close>

definition py_take :: "int \<Rightarrow> 'a list \<Rightarrow> 'a list" where
  "py_take n xs = (if 0 \<le> n then take (nat n) xs else take (length xs - nat (- n)) xs)"

section \<open>processor/sub/metadata_engine.py\<close>

datatype comparator = EqComparator | InComparator | PrefixComparator | ContainsComparator

datatype extractor = ExtractResourceType | ExtractCategory

fun run_comparator :: "pylib \<Rightarrow> comparator \<Rightarrow> json \<Rightarrow> string \<Rightarrow> bool" where
  "run_comparator lib EqComparator x y = (casefold (py_str lib x) = casefold y)"
| "run_comparator lib InComparator x y =
     (casefold (py_str lib x) \<in> set (split_on CHR '','' (casefold y)))"
| "run_comparator lib PrefixComparator x y = startswith (casefold (py_str lib x)) (casefold y)"
| "run_comparator lib ContainsComparator x y = contains_str (casefold (py_str lib x)) (casefold y)"

definition CONDITION_COMPARATOR_MAP :: "(string \<times> comparator) list" where
  "CONDITION_COMPARATOR_MAP =
     [(casefold ''$eq'', EqComparator), (casefold ''$in'', InComparator),
      (casefold ''$prefix'', PrefixComparator), (casefold ''$contains'', ContainsComparator)]"

fun run_extractor :: "extractor \<Rightarrow> pydict \<Rightarrow> pydict \<Rightarrow> json" where
  "run_extractor ExtractResourceType record parsed_record =
     (case map_of parsed_record RESOURCE_TYPE_ATTRIBUTE of Some v \<Rightarrow> v | None \<Rightarrow> JStr [])"
| "run_extractor ExtractCategory record parsed_record =
     (case map_of record ''category'' of Some v \<Rightarrow> v | None \<Rightarrow> JStr [])"

definition SOURCE_VALUE_EXTRACTOR_MAP :: "(string \<times> extractor) list" where
  "SOURCE_VALUE_EXTRACTOR_MAP =
     [(casefold ''resourceType'', ExtractResourceType), (casefold ''category'', ExtractCategory)]"

record Attribute =
  attr_key :: string
  attr_pattern :: string

record SourceMatcher =
  matcher_source :: string
  matcher_condition :: string
  matcher_valid :: bool
  matcher_evaluator :: "comparator option"
  matcher_operand :: "string option"
  matcher_extractor :: "extractor option"

record ConfigRule =
  entity_type_name :: string
  source_matchers :: "SourceMatcher list"
  attributes :: "Attribute list"

text \<open>\<^verbatim>\<open>re.findall(r"'(.*?)'", condition, re.DOTALL)\<close>: the texts between successive pairs
  of single quotes, left to right.\<close>

function findall_quoted :: "string \<Rightarrow> string list" where
  "findall_quoted s =
     (case dropWhile (\<lambda>c. c \<noteq> CHR 0x27) s of
        [] \<Rightarrow> []
      | q # r \<Rightarrow>
          (case dropWhile (\<lambda>c. c \<noteq> CHR 0x27) r of
             [] \<Rightarrow> []
           | q' # r' \<Rightarrow> takeWhile (\<lambda>c. c \<noteq> CHR 0x27) r # findall_quoted r'))"
  by pat_completeness auto

lemma length_dropWhile_tail:
  "dropWhile P s = q # r \<Longrightarrow> length r < length s"
proof -
  assume eq: "dropWhile P s = q # r"
  have "length (dropWhile P s) \<le> length s" by (rule length_dropWhile_le)
  then show ?thesis unfolding eq by simp
qed

termination findall_quoted
proof (relation "measure length", goal_cases)
  case 1
  show ?case by simp
next
  case (2 s q r q' r')
  have "length r' < length r" using 2(2) by (rule length_dropWhile_tail)
  moreover have "length r < length s" using 2(1) by (rule length_dropWhile_tail)
  ultimately show ?case by simp
qed

text \<open>The constructor \<^verbatim>\<open>SourceMatcher.__init__\<close>. The first key of the comparator table
  that the condition starts with selects the evaluator; an empty operand is falsy.\<close>

definition new_SourceMatcher :: "string \<Rightarrow> string \<Rightarrow> SourceMatcher" where
  "new_SourceMatcher src cond =
     (let ev = map_option snd (find (\<lambda>(key, f). startswith cond key) CONDITION_COMPARATOR_MAP);
          operands = findall_quoted cond;
          opnd = (if operands \<noteq> [] then Some (join '','' operands) else None);
          ex = map_of SOURCE_VALUE_EXTRACTOR_MAP (casefold src);
          bad_source = (ex = None);
          bad_condition = (ev = None \<or> opnd = None \<or> opnd = Some [])
      in \<lparr> matcher_source = src, matcher_condition = cond,
           matcher_valid = (\<not> bad_source \<and> \<not> bad_condition),
           matcher_evaluator = ev, matcher_operand = opnd, matcher_extractor = ex \<rparr>)"

text \<open>\<^verbatim>\<open>SourceMatcher.match\<close>. Calling a missing extractor or evaluator raises TypeError
  inside the \<^verbatim>\<open>try\<close>, which returns False.\<close>

definition matcher_match :: "pylib \<Rightarrow> SourceMatcher \<Rightarrow> pydict \<Rightarrow> pydict \<Rightarrow> bool" where
  "matcher_match lib m record parsed_record =
     (if \<not> matcher_valid m then False
      else (case matcher_extractor m of
              None \<Rightarrow> False
            | Some ex \<Rightarrow>
                (case matcher_evaluator m of
                   None \<Rightarrow> False
                 | Some ev \<Rightarrow>
                     (case matcher_operand m of
                        None \<Rightarrow> run_comparator lib ev (run_extractor ex record parsed_record) ''None''
                      | Some y \<Rightarrow> run_comparator lib ev (run_extractor ex record parsed_record) y))))"

definition is_rule_applicable :: "pylib \<Rightarrow> ConfigRule \<Rightarrow> pydict \<Rightarrow> pydict \<Rightarrow> bool" where
  "is_rule_applicable lib rule record parsed_record =
     list_all (\<lambda>matcher. matcher_match lib matcher record parsed_record) (source_matchers rule)"

text \<open>\<^verbatim>\<open>_apply_rule\<close>: one \<^verbatim>\<open>try\<close> per attribute; a query error skips the attribute, a
  \<^verbatim>\<open>None\<close> result leaves the entry as it is.\<close>

fun apply_attrs :: "pylib \<Rightarrow> Attribute list \<Rightarrow> pydict \<Rightarrow> pydict \<Rightarrow> pydict" where
  "apply_attrs lib [] parsed_record raw_record = parsed_record"
| "apply_attrs lib (a # as) parsed_record raw_record =
     (case jmespath_search lib (attr_pattern a) (JObj raw_record) of
        Inl e \<Rightarrow> apply_attrs lib as parsed_record raw_record
      | Inr JNull \<Rightarrow> apply_attrs lib as parsed_record raw_record
      | Inr v \<Rightarrow> apply_attrs lib as (AList.update (attr_key a) v parsed_record) raw_record)"

definition apply_rule :: "pylib \<Rightarrow> ConfigRule \<Rightarrow> pydict \<Rightarrow> pydict \<Rightarrow> pydict" where
  "apply_rule lib rule parsed_record raw_record =
     apply_attrs lib (attributes rule) parsed_record raw_record"

record MetadataEngine =
  rules :: "ConfigRule list"
  default_rule :: "ConfigRule option"

text \<open>\<^verbatim>\<open>MetadataEngine.apply\<close>: the loop over \<^verbatim>\<open>self.rules\<close> returns at the first
  applicable rule; after the loop the default rule is applied if there is one.\<close>

fun apply_loop ::
  "pylib \<Rightarrow> ConfigRule list \<Rightarrow> ConfigRule option \<Rightarrow> pydict \<Rightarrow> pydict \<Rightarrow> pydict" where
  "apply_loop lib [] dflt record parsed_record =
     (case dflt of
        Some d \<Rightarrow> apply_rule lib d parsed_record record
      | None \<Rightarrow> parsed_record)"
| "apply_loop lib (rule # rest) dflt record parsed_record =
     (if is_rule_applicable lib rule record parsed_record
      then apply_rule lib rule parsed_record record
      else apply_loop lib rest dflt record parsed_record)"

definition metadata_apply :: "pylib \<Rightarrow> MetadataEngine \<Rightarrow> pydict \<Rightarrow> pydict \<Rightarrow> pydict" where
  "metadata_apply lib engine record parsed_record =
     apply_loop lib (rules engine) (default_rule engine) record parsed_record"

section \<open>processor/custom_processor.py\<close>

record CustomProcessor =
  attribute_limit :: int
  content_limit :: int
  truncated_mark :: string
  metadata_engine :: MetadataEngine
  utcnow_isoformat :: string

text \<open>The field \<open>utcnow_isoformat\<close> stands for the clock: the value of
  \<^verbatim>\<open>datetime.now(timezone.utc).isoformat()\<close> at the time of the call.\<close>

subsection \<open>Timestamp patterns\<close>

text \<open>The two compiled patterns use only \<^verbatim>\<open>\d{n}\<close> and literal characters;
  \<open>re_compile\<close> reads that fragment of the pattern syntax from the pattern text, and
  \<^verbatim>\<open>pattern.match\<close> matches at the start of the string (a prefix match).\<close>

text \<open>The digits are the ASCII digits. For a Python \<^verbatim>\<open>str\<close>, \<^verbatim>\<open>\d\<close> and the directives of
  \<^verbatim>\<open>strptime\<close> also accept the other Unicode decimal digits; timestamps that contain
  such digits are outside the model.\<close>

definition digit_chars :: string where
  "digit_chars = ''0123456789''"

definition is_digit :: "char \<Rightarrow> bool" where
  "is_digit c = (c \<in> set digit_chars)"

definition digit_val :: "char \<Rightarrow> nat" where
  "digit_val c =
     (case map_of (zip digit_chars [0, 1, 2, 3, 4, 5, 6, 7, 8, 9]) c of
        Some n \<Rightarrow> n
      | None \<Rightarrow> 0)"

datatype re_atom = ReDigit | ReLit char

fun re_compile :: "string \<Rightarrow> re_atom list" where
  "re_compile (b # d # l # n # r # rest) =
     (if b = CHR 0x5C \<and> d = CHR ''d'' \<and> l = CHR ''{'' \<and> is_digit n \<and> r = CHR ''}''
      then replicate (digit_val n) ReDigit @ re_compile rest
      else ReLit b # re_compile (d # l # n # r # rest))"
| "re_compile (c # cs) = ReLit c # re_compile cs"
| "re_compile [] = []"

fun re_match_atoms :: "re_atom list \<Rightarrow> string \<Rightarrow> bool" where
  "re_match_atoms [] s = True"
| "re_match_atoms (a # as) [] = False"
| "re_match_atoms (ReDigit # as) (c # cs) = (is_digit c \<and> re_match_atoms as cs)"
| "re_match_atoms (ReLit x # as) (c # cs) = (c = x \<and> re_match_atoms as cs)"

definition re_match :: "string \<Rightarrow> string \<Rightarrow> bool" where
  "re_match pattern s = re_match_atoms (re_compile pattern) s"

definition bsl :: string where
  "bsl = [CHR 0x5C]"

definition time_patterns :: "string list" where
  "time_patterns =
     [bsl @ ''d{4}-'' @ bsl @ ''d{2}-'' @ bsl @ ''d{2} '' @ bsl @ ''d{2}:'' @ bsl @ ''d{2}:''
        @ bsl @ ''d{2}'',
      bsl @ ''d{2}/'' @ bsl @ ''d{2}/'' @ bsl @ ''d{4} '' @ bsl @ ''d{2}:'' @ bsl @ ''d{2}:''
        @ bsl @ ''d{2}'']"

definition get_format :: "string \<Rightarrow> string" where
  "get_format pattern =
     (if contains_str pattern ''202'' then ''%Y-%m-%d %H:%M:%S'' else ''%m/%d/%Y %H:%M:%S'')"

subsection \<open>datetime.strptime and isoformat\<close>

text \<open>
  \<^verbatim>\<open>datetime.strptime\<close> turns the format into a regular expression, takes its first
  match at the start of the string and raises ValueError if there is none, if text is
  left over, or if the fields are no valid date. The directives used here, with the
  alternatives in the library's order: \<^verbatim>\<open>%Y\<close> four digits; \<^verbatim>\<open>%m\<close> two digits 01 to 12,
  else one digit 1 to 9; \<^verbatim>\<open>%d\<close> two digits 01 to 31, else one digit 1 to 9, else a space
  and one digit; \<^verbatim>\<open>%H\<close> two digits 00 to 23, else one digit; \<^verbatim>\<open>%M\<close> two digits 00 to
  59, else one digit; \<^verbatim>\<open>%S\<close> two digits 00 to 61, else one digit; white space in the
  format matches one or more white-space characters; any other character matches itself.
\<close>

datatype directive =
  DirYear | DirMonth | DirDay | DirHour | DirMinute | DirSecond | DirSpace | DirLit char | DirBad

definition directive_of :: "char \<Rightarrow> directive" where
  "directive_of c =
     (if c = CHR ''Y'' then DirYear else if c = CHR ''m'' then DirMonth
      else if c = CHR ''d'' then DirDay else if c = CHR ''H'' then DirHour
      else if c = CHR ''M'' then DirMinute else if c = CHR ''S'' then DirSecond
      else DirBad)"

definition is_space :: "char \<Rightarrow> bool" where
  "is_space c = (c \<in> set [CHR 0x20, CHR 0x09, CHR 0x0A, CHR 0x0B, CHR 0x0C, CHR 0x0D])"

definition plain_directive :: "char \<Rightarrow> directive" where
  "plain_directive c = (if is_space c then DirSpace else DirLit c)"

fun parse_format :: "string \<Rightarrow> directive list" where
  "parse_format (p # c # rest) =
     (if p = CHR ''%'' then directive_of c # parse_format rest
      else plain_directive p # parse_format (c # rest))"
| "parse_format [c] = [plain_directive c]"
| "parse_format [] = []"

record datetime =
  dt_year :: nat
  dt_month :: nat
  dt_day :: nat
  dt_hour :: nat
  dt_minute :: nat
  dt_second :: nat

fun two_digits :: "string \<Rightarrow> (nat \<times> string) option" where
  "two_digits (a # b # rest) =
     (if is_digit a \<and> is_digit b then Some (10 * digit_val a + digit_val b, rest) else None)"
| "two_digits _ = None"

fun one_digit :: "string \<Rightarrow> (nat \<times> string) option" where
  "one_digit (a # rest) = (if is_digit a then Some (digit_val a, rest) else None)"
| "one_digit _ = None"

fun four_digits :: "string \<Rightarrow> (nat \<times> string) option" where
  "four_digits (a # b # c # d # rest) =
     (if is_digit a \<and> is_digit b \<and> is_digit c \<and> is_digit d
      then Some (1000 * digit_val a + 100 * digit_val b + 10 * digit_val c + digit_val d, rest)
      else None)"
| "four_digits _ = None"

definition num_candidates :: "nat \<Rightarrow> nat \<Rightarrow> nat \<Rightarrow> string \<Rightarrow> (nat \<times> string) list" where
  "num_candidates lo hi lo1 s =
     (case two_digits s of
        Some (v, r) \<Rightarrow> if lo \<le> v \<and> v \<le> hi then [(v, r)] else []
      | None \<Rightarrow> [])
     @ (case one_digit s of
          Some (v, r) \<Rightarrow> if lo1 \<le> v then [(v, r)] else []
        | None \<Rightarrow> [])"

fun space_candidates :: "string \<Rightarrow> string list" where
  "space_candidates [] = []"
| "space_candidates (c # cs) = (if is_space c then space_candidates cs @ [cs] else [])"

fun step :: "directive \<Rightarrow> string \<Rightarrow> datetime \<Rightarrow> (datetime \<times> string) list" where
  "step DirYear s acc =
     (case four_digits s of Some (v, r) \<Rightarrow> [(acc\<lparr>dt_year := v\<rparr>, r)] | None \<Rightarrow> [])"
| "step DirMonth s acc = map (\<lambda>(v, r). (acc\<lparr>dt_month := v\<rparr>, r)) (num_candidates 1 12 1 s)"
| "step DirDay s acc =
     map (\<lambda>(v, r). (acc\<lparr>dt_day := v\<rparr>, r))
       (num_candidates 1 31 1 s
        @ (case s of
             sp # rest \<Rightarrow> if sp = CHR 0x20 then filter (\<lambda>(v, r). 1 \<le> v) (case one_digit rest of Some x \<Rightarrow> [x] | None \<Rightarrow> []) else []
           | [] \<Rightarrow> []))"
| "step DirHour s acc = map (\<lambda>(v, r). (acc\<lparr>dt_hour := v\<rparr>, r)) (num_candidates 0 23 0 s)"
| "step DirMinute s acc = map (\<lambda>(v, r). (acc\<lparr>dt_minute := v\<rparr>, r)) (num_candidates 0 59 0 s)"
| "step DirSecond s acc = map (\<lambda>(v, r). (acc\<lparr>dt_second := v\<rparr>, r)) (num_candidates 0 61 0 s)"
| "step DirSpace s acc = map (\<lambda>r. (acc, r)) (space_candidates s)"
| "step (DirLit x) s acc = (case s of c # cs \<Rightarrow> if c = x then [(acc, cs)] else [] | [] \<Rightarrow> [])"
| "step DirBad s acc = []"

fun first_some :: "'a option list \<Rightarrow> 'a option" where
  "first_some [] = None"
| "first_some (Some x # xs) = Some x"
| "first_some (None # xs) = first_some xs"

fun run_directives :: "directive list \<Rightarrow> string \<Rightarrow> datetime \<Rightarrow> (datetime \<times> string) option" where
  "run_directives [] s acc = Some (acc, s)"
| "run_directives (d # ds) s acc =
     first_some (map (\<lambda>(acc', rest). run_directives ds rest acc') (step d s acc))"

definition is_leap :: "nat \<Rightarrow> bool" where
  "is_leap y = (y mod 4 = 0 \<and> (y mod 100 \<noteq> 0 \<or> y mod 400 = 0))"

definition days_in_month :: "nat \<Rightarrow> nat \<Rightarrow> nat" where
  "days_in_month y m =
     (if m = 2 then (if is_leap y then 29 else 28)
      else if m \<in> set [4, 6, 9, 11] then 30 else 31)"

definition valid_datetime :: "datetime \<Rightarrow> bool" where
  "valid_datetime d =
     (1 \<le> dt_year d \<and> 1 \<le> dt_month d \<and> dt_month d \<le> 12 \<and> 1 \<le> dt_day d \<and>
      dt_day d \<le> days_in_month (dt_year d) (dt_month d) \<and>
      dt_hour d \<le> 23 \<and> dt_minute d \<le> 59 \<and> dt_second d \<le> 59)"

definition strptime :: "string \<Rightarrow> string \<Rightarrow> datetime option" where
  "strptime data_string format =
     (case run_directives (parse_format format) data_string
             \<lparr>dt_year = 1900, dt_month = 1, dt_day = 1, dt_hour = 0, dt_minute = 0, dt_second = 0\<rparr> of
        None \<Rightarrow> None
      | Some (d, rest) \<Rightarrow> if rest \<noteq> [] then None else if valid_datetime d then Some d else None)"

definition digit_char :: "nat \<Rightarrow> char" where
  "digit_char n = digit_chars ! (n mod 10)"

definition pad2 :: "nat \<Rightarrow> string" where
  "pad2 n = [digit_char (n div 10), digit_char n]"

definition pad4 :: "nat \<Rightarrow> string" where
  "pad4 n = [digit_char (n div 1000), digit_char (n div 100), digit_char (n div 10), digit_char n]"

text \<open>\<^verbatim>\<open>dt.isoformat(timespec="milliseconds")\<close> of a datetime without time zone and with
  microsecond 0, which is all that these formats produce.\<close>

definition isoformat_ms :: "datetime \<Rightarrow> string" where
  "isoformat_ms d =
     pad4 (dt_year d) @ ''-'' @ pad2 (dt_month d) @ ''-'' @ pad2 (dt_day d) @ ''T''
     @ pad2 (dt_hour d) @ '':'' @ pad2 (dt_minute d) @ '':'' @ pad2 (dt_second d) @ ''.000''"

fun parse_datetime_loop :: "string list \<Rightarrow> string \<Rightarrow> string \<Rightarrow> string" where
  "parse_datetime_loop [] timestamp now = now"
| "parse_datetime_loop (pattern # rest) timestamp now =
     (if re_match pattern timestamp
      then (case strptime timestamp (get_format pattern) of
              Some dt \<Rightarrow> isoformat_ms dt
            | None \<Rightarrow> parse_datetime_loop rest timestamp now)
      else parse_datetime_loop rest timestamp now)"

definition parse_datetime :: "CustomProcessor \<Rightarrow> string \<Rightarrow> string" where
  "parse_datetime self timestamp = parse_datetime_loop time_patterns timestamp (utcnow_isoformat self)"

text \<open>\<^verbatim>\<open>_convert_timestamp\<close>: \<^verbatim>\<open>pattern.match\<close> of a value that is not a string raises
  TypeError, which nothing in \<^verbatim>\<open>_parse_datetime\<close> catches.\<close>

definition convert_timestamp :: "CustomProcessor \<Rightarrow> pydict \<Rightarrow> exn + pydict" where
  "convert_timestamp self record =
     (case map_of record ''timestamp'' of
        None \<Rightarrow> Inr record
      | Some (JStr ts) \<Rightarrow> Inr (AList.update ''timestamp'' (JStr (parse_datetime self ts)) record)
      | Some _ \<Rightarrow> Inl TypeError)"

subsection \<open>Field-length policy\<close>

definition truncate_content :: "pylib \<Rightarrow> CustomProcessor \<Rightarrow> json \<Rightarrow> string" where
  "truncate_content lib self content =
     (let content_str = (case content of JStr s \<Rightarrow> s | _ \<Rightarrow> json_dumps lib content)
      in if int (length content_str) > content_limit self
         then py_take (content_limit self - int (length (truncated_mark self))) content_str
              @ truncated_mark self
         else content_str)"

definition truncate_generic_field :: "pylib \<Rightarrow> CustomProcessor \<Rightarrow> json \<Rightarrow> string" where
  "truncate_generic_field lib self v =
     (let str_value = py_str lib v
      in if int (length str_value) > attribute_limit self
         then py_take (attribute_limit self - int (length (truncated_mark self))) str_value
              @ truncated_mark self
         else str_value)"

definition truncate_value :: "pylib \<Rightarrow> CustomProcessor \<Rightarrow> string \<Rightarrow> json \<Rightarrow> string" where
  "truncate_value lib self key v =
     (if key = ''content'' then truncate_content lib self v
      else if key \<in> set [''severity'', ''timestamp''] then py_str lib v
      else truncate_generic_field lib self v)"

definition apply_field_limits :: "pylib \<Rightarrow> CustomProcessor \<Rightarrow> pydict \<Rightarrow> pydict" where
  "apply_field_limits lib self record =
     map (\<lambda>(key, v). (key, JStr (truncate_value lib self key v))) record"

subsection \<open>Building one entry\<close>

definition deserialize_properties :: "pylib \<Rightarrow> pydict \<Rightarrow> pydict" where
  "deserialize_properties lib record =
     (case find (\<lambda>k. has_key record k) azure_properties_names of
        None \<Rightarrow> record
      | Some prop_key \<Rightarrow>
          (case map_of record prop_key of
             Some (JStr s) \<Rightarrow>
               (case json_loads lib s of
                  Some v \<Rightarrow> AList.update prop_key v record
                | None \<Rightarrow> record)
           | _ \<Rightarrow> record))"

definition extract_resource_info :: "pydict \<Rightarrow> pydict \<Rightarrow> exn + pydict" where
  "extract_resource_info record parsed =
     (case map_of record ''resourceId'' of
        Some resource_id \<Rightarrow> extract_resource_id_attributes parsed resource_id
      | None \<Rightarrow> Inr parsed)"

text \<open>\<^verbatim>\<open>record.get("category", "").lower()\<close> raises AttributeError when the category is
  not a string.\<close>

definition category_lower :: "pydict \<Rightarrow> exn + string" where
  "category_lower record =
     (case map_of record ''category'' of
        None \<Rightarrow> Inr []
      | Some (JStr s) \<Rightarrow> Inr (casefold s)
      | Some _ \<Rightarrow> Inl AttributeError)"

definition build_parsed_record :: "pylib \<Rightarrow> CustomProcessor \<Rightarrow> pydict \<Rightarrow> exn + pydict" where
  "build_parsed_record lib self record =
     (let parsed0 = [(''cloud.provider'', JStr ''Azure'')];
          parsed1 = extract_severity record parsed0
      in case extract_resource_info record parsed1 of
           Inl e \<Rightarrow> Inl e
         | Inr parsed2 \<Rightarrow>
             (case convert_timestamp self (metadata_apply lib (metadata_engine self) record parsed2) of
                Inl e \<Rightarrow> Inl e
              | Inr parsed3 \<Rightarrow>
                  (case category_lower record of
                     Inl e \<Rightarrow> Inl e
                   | Inr category \<Rightarrow> infer_monitored_entity_id lib category parsed3)))"

text \<open>\<^verbatim>\<open>_process_record\<close> returns \<^verbatim>\<open>None\<close> when anything in its \<^verbatim>\<open>try\<close> raises. A record
  that is not a dict always ends there: at the latest \<^verbatim>\<open>record.get("category", "")\<close>
  raises AttributeError (a string, a list, a number and a bool have no \<^verbatim>\<open>get\<close>).\<close>

definition process_record :: "pylib \<Rightarrow> CustomProcessor \<Rightarrow> json \<Rightarrow> pydict option" where
  "process_record lib self record =
     (case record of
        JObj r \<Rightarrow>
          (case build_parsed_record lib self (deserialize_properties lib r) of
             Inr parsed \<Rightarrow> Some (apply_field_limits lib self parsed)
           | Inl e \<Rightarrow> None)
      | _ \<Rightarrow> None)"

subsection \<open>Parsing the event body\<close>

record RawEvent =
  body_as_str :: "exn + string"
  get_offset :: "exn + string"
  event_offset :: string
  sequence_number :: int

text \<open>\<^verbatim>\<open>json.loads(body).get("records", [])\<close>: a parsed value that is not a dict has no
  \<^verbatim>\<open>get\<close> (AttributeError, which is not a JSONDecodeError).\<close>

definition get_records :: "json \<Rightarrow> exn + json" where
  "get_records v =
     (case v of
        JObj d \<Rightarrow> Inr (case map_of d ''records'' of Some r \<Rightarrow> r | None \<Rightarrow> JList [])
      | _ \<Rightarrow> Inl AttributeError)"

definition replace_quotes :: "string \<Rightarrow> string" where
  "replace_quotes body =
     map (\<lambda>c. if c = CHR 0x27 then CHR 0x22 else c) (filter (\<lambda>c. c \<noteq> CHR 0x0A) body)"

definition attempt_fallback_parsing :: "pylib \<Rightarrow> string \<Rightarrow> json" where
  "attempt_fallback_parsing lib body =
     (case json_loads_lenient lib (replace_quotes body) of
        None \<Rightarrow> JList []
      | Some v \<Rightarrow> (case get_records v of Inr r \<Rightarrow> r | Inl e \<Rightarrow> JList []))"

definition parse_event_body :: "pylib \<Rightarrow> string \<Rightarrow> exn + json" where
  "parse_event_body lib body =
     (case json_loads lib body of
        Some v \<Rightarrow> get_records v
      | None \<Rightarrow> Inr (attempt_fallback_parsing lib body))"

text \<open>Iterating a value in a comprehension: a list gives its elements, a dict its keys, a
  string its characters; anything else raises TypeError.\<close>

definition py_iter :: "json \<Rightarrow> exn + json list" where
  "py_iter v =
     (case v of
        JList xs \<Rightarrow> Inr xs
      | JObj d \<Rightarrow> Inr (map (\<lambda>(k, x). JStr k) d)
      | JStr s \<Rightarrow> Inr (map (\<lambda>c. JStr [c]) s)
      | _ \<Rightarrow> Inl TypeError)"

text \<open>An event is seen through the calls that the processor makes on it:
  \<open>body_as_str\<close> is the result of \<^verbatim>\<open>event.body_as_str(encoding="UTF-8")\<close> and \<open>get_offset\<close>
  the result of \<^verbatim>\<open>event.get("offset", "unknown")\<close>. The second call is made by
  \<^verbatim>\<open>_log_event_error\<close>, inside the \<^verbatim>\<open>except\<close> block of \<^verbatim>\<open>extract_logs\<close>, while it builds
  the log record; if it raises (an event object without a method \<^verbatim>\<open>get\<close> raises
  AttributeError), the exception leaves \<^verbatim>\<open>extract_logs\<close>. Otherwise the handler returns
  the empty list.\<close>

definition event_error :: "RawEvent \<Rightarrow> exn + pydict option list" where
  "event_error event =
     (case get_offset event of
        Inl e \<Rightarrow> Inl e
      | Inr off \<Rightarrow> Inr [])"

text \<open>\<^verbatim>\<open>extract_logs\<close>. The filter of the comprehension tests the input \<^verbatim>\<open>record\<close>, and the
  element of the result is whatever \<^verbatim>\<open>_process_record\<close> returned, \<^verbatim>\<open>None\<close> included.\<close>

definition extract_logs ::
  "pylib \<Rightarrow> CustomProcessor \<Rightarrow> RawEvent \<Rightarrow> exn + pydict option list" where
  "extract_logs lib self event =
     (case body_as_str event of
        Inl e \<Rightarrow> event_error event
      | Inr event_body \<Rightarrow>
          if event_body = [] then Inr []
          else (case parse_event_body lib event_body of
                  Inl e \<Rightarrow> event_error event
                | Inr v \<Rightarrow>
                    (case py_iter v of
                       Inl e \<Rightarrow> event_error event
                     | Inr records \<Rightarrow>
                         Inr (map (process_record lib self)
                                (filter (\<lambda>record. record \<noteq> JNull) records)))))"

section \<open>services/logs_sender.py\<close>

record LogSender =
  max_request_size :: int
  max_events_per_request :: int
  max_retries :: int
  http_concurrency :: int

record 'a LogBatch =
  batch_logs :: "'a list"
  number_of_logs :: nat

text \<open>The batch keeps the list of entries that \<^verbatim>\<open>_create_batch\<close> serializes (the source
  keeps \<^verbatim>\<open>json.dumps(logs)\<close>) together with its length. The size of one entry,
  \<^verbatim>\<open>len(json.dumps(log).encode('utf-8'))\<close>, is the parameter \<open>entry_size_of\<close>.\<close>

definition create_batch :: "'a list \<Rightarrow> 'a LogBatch" where
  "create_batch logs = \<lparr>batch_logs = logs, number_of_logs = length logs\<rparr>"

fun batch_loop ::
  "('a \<Rightarrow> nat) \<Rightarrow> int \<Rightarrow> int \<Rightarrow> 'a list \<Rightarrow> 'a list \<Rightarrow> nat \<Rightarrow> 'a list list" where
  "batch_loop entry_size_of max_size max_events [] current_batch current_size =
     (if current_batch \<noteq> [] then [current_batch] else [])"
| "batch_loop entry_size_of max_size max_events (log # logs) current_batch current_size =
     (let entry_size = entry_size_of log
      in if int entry_size > max_size
         then batch_loop entry_size_of max_size max_events logs current_batch current_size
         else if int (length current_batch) \<ge> max_events
                 \<or> int (current_size + entry_size) > max_size
         then current_batch
              # batch_loop entry_size_of max_size max_events logs [log] entry_size
         else batch_loop entry_size_of max_size max_events logs
                (current_batch @ [log]) (current_size + entry_size))"

definition batch_groups :: "('a \<Rightarrow> nat) \<Rightarrow> LogSender \<Rightarrow> 'a list \<Rightarrow> 'a list list" where
  "batch_groups entry_size_of self logs =
     batch_loop entry_size_of (max_request_size self) (max_events_per_request self) logs [] 0"

definition prepare_batches :: "('a \<Rightarrow> nat) \<Rightarrow> LogSender \<Rightarrow> 'a list \<Rightarrow> 'a LogBatch list" where
  "prepare_batches entry_size_of self logs = map create_batch (batch_groups entry_size_of self logs)"

subsection \<open>Sending\<close>

text \<open>What one HTTP POST does: the server answers with a status, or the client library
  raises \<^verbatim>\<open>aiohttp.ClientError\<close>, or something else is raised (a timeout, for example).
  The trace records each POST with its attempt number and each \<^verbatim>\<open>asyncio.sleep\<close> with
  its delay in milliseconds.\<close>

datatype http_outcome = Response nat | RaisesClientError | RaisesOther exn

datatype io_event = Post int | Sleep int

definition handle_response :: "nat \<Rightarrow> bool" where
  "handle_response status = (status < 300)"

definition send_batch :: "http_outcome \<Rightarrow> exn + bool" where
  "send_batch outcome =
     (case outcome of
        Response status \<Rightarrow> Inr (handle_response status)
      | RaisesClientError \<Rightarrow> Inr False
      | RaisesOther e \<Rightarrow> Inl e)"

text \<open>The loop \<^verbatim>\<open>for attempt in range(1, max_retries + 1)\<close> of \<^verbatim>\<open>_process_batch\<close>; the
  server's behaviour at each attempt is the function \<open>server\<close>.\<close>

function attempt_loop ::
  "LogSender \<Rightarrow> (int \<Rightarrow> http_outcome) \<Rightarrow> int \<Rightarrow> io_event list \<Rightarrow> bool \<times> io_event list" where
  "attempt_loop self server attempt trace =
     (if attempt > max_retries self then (False, trace)
      else (case send_batch (server attempt) of
              Inr b \<Rightarrow> (b, trace @ [Post attempt])
            | Inl e \<Rightarrow>
                if attempt = max_retries self then (False, trace @ [Post attempt])
                else attempt_loop self server (attempt + 1)
                       (trace @ [Post attempt, Sleep (attempt * 1500)])))"
  by pat_completeness auto
termination
  by (relation "measure (\<lambda>(self, server, attempt, trace). nat (max_retries self + 1 - attempt))") auto

definition process_batch :: "LogSender \<Rightarrow> (int \<Rightarrow> http_outcome) \<Rightarrow> bool \<times> io_event list" where
  "process_batch self server = attempt_loop self server 1 []"

text \<open>\<^verbatim>\<open>send\<close>: no batch, no request and the result is True. Otherwise the semaphore is
  made first: \<^verbatim>\<open>asyncio.Semaphore\<close> raises ValueError for a negative value, which the
  \<^verbatim>\<open>except Exception\<close> of \<^verbatim>\<open>send\<close> turns into the result False before any request; with
  the value 0 no batch ever acquires the semaphore and \<^verbatim>\<open>send\<close> does not return, which
  is the value \<open>None\<close>. With a positive value every batch is processed and the result
  is \<^verbatim>\<open>all(results)\<close>; \<^verbatim>\<open>_process_batch\<close> catches every exception, so nothing else reaches
  the handler of \<^verbatim>\<open>send\<close>. The batches run concurrently; the model lists the trace batch
  by batch and does not order the requests of different batches in time.
  \<open>servers i\<close> is the behaviour of the server towards the batch at position \<open>i\<close>.\<close>

definition send ::
  "('a \<Rightarrow> nat) \<Rightarrow> LogSender \<Rightarrow> (nat \<Rightarrow> int \<Rightarrow> http_outcome) \<Rightarrow> 'a list
     \<Rightarrow> (bool \<times> io_event list list) option" where
  "send entry_size_of self servers logs =
     (let batches = prepare_batches entry_size_of self logs
      in if batches = [] then Some (True, [])
         else if http_concurrency self < 0 then Some (False, [])
         else if http_concurrency self = 0 then None
         else (let results = map (\<lambda>i. process_batch self (servers i)) [0..<length batches]
               in Some (list_all fst results, map snd results)))"

section \<open>services/eventhub_consumer.py and libs/exceptions.py\<close>

text \<open>
  The handler is modelled over its collaborators, each of which may raise:
  \<^verbatim>\<open>extract_logs\<close>, \<^verbatim>\<open>sender.send\<close> and \<^verbatim>\<open>partition_context.update_checkpoint\<close>. The
  trace lists the deliveries and the checkpoint updates that were carried out, in order.
\<close>

record ('e, 'l) collaborators =
  co_extract_logs :: "'e \<Rightarrow> exn + 'l list"
  co_send :: "'l list \<Rightarrow> exn + bool"
  co_update_checkpoint :: "'e \<Rightarrow> exn + unit"

datatype ('e, 'l) action = Sent "'l list" bool | SendRaised "'l list" | Checkpointed 'e

definition send_logs_safely ::
  "('e, 'l) collaborators \<Rightarrow> 'l list \<Rightarrow> ('e, 'l) action list
     \<Rightarrow> (exn + unit) \<times> ('e, 'l) action list" where
  "send_logs_safely co logs trace =
     (case co_send co logs of
        Inr ok \<Rightarrow> (Inr (), trace @ [Sent logs ok])
      | Inl e \<Rightarrow> (Inl e, trace @ [SendRaised logs]))"

text \<open>\<^verbatim>\<open>CustomProcessor.process\<close>: a false result of \<^verbatim>\<open>send\<close> is logged and is no
  exception; an exception is logged and raised again.\<close>

definition process ::
  "('e, 'l) collaborators \<Rightarrow> 'e \<Rightarrow> ('e, 'l) action list
     \<Rightarrow> (exn + unit) \<times> ('e, 'l) action list" where
  "process co event trace =
     (case co_extract_logs co event of
        Inl e \<Rightarrow> (Inl e, trace)
      | Inr logs \<Rightarrow> if logs \<noteq> [] then send_logs_safely co logs trace else (Inr (), trace))"

text \<open>\<^verbatim>\<open>EventHubConsumer.process_message\<close> without its decorator: every exception of the
  body becomes a ProcessingError.\<close>

definition process_message_body ::
  "('e, 'l) collaborators \<Rightarrow> 'e \<Rightarrow> ('e, 'l) action list
     \<Rightarrow> (exn + unit) \<times> ('e, 'l) action list" where
  "process_message_body co event trace =
     (case process co event trace of
        (Inl e, t) \<Rightarrow> (Inl (ProcessingError ''Event processing failed''), t)
      | (Inr u, t) \<Rightarrow>
          (case co_update_checkpoint co event of
             Inl e \<Rightarrow> (Inl (ProcessingError ''Event processing failed''), t)
           | Inr u' \<Rightarrow> (Inr (), t @ [Checkpointed event])))"

text \<open>The decorator \<^verbatim>\<open>error_handler(max_retries)\<close>: the call is repeated after a
  ConnectivityError; any other exception leaves the wrapper.\<close>

function error_handler ::
  "nat \<Rightarrow> ('s \<Rightarrow> (exn + unit) \<times> 's) \<Rightarrow> nat \<Rightarrow> 's \<Rightarrow> (exn + unit) \<times> 's" where
  "error_handler max_tries func retries st =
     (if retries < max_tries
      then (case func st of
              (Inr v, st') \<Rightarrow> (Inr v, st')
            | (Inl (ConnectivityError m), st') \<Rightarrow> error_handler max_tries func (retries + 1) st'
            | (Inl e, st') \<Rightarrow> (Inl e, st'))
      else (Inl (ConnectivityError ''Max retries exceeded''), st))"
  by pat_completeness auto
termination
  by (relation "measure (\<lambda>(max_tries, func, retries, st). max_tries - retries)") auto

definition process_message ::
  "('e, 'l) collaborators \<Rightarrow> 'e \<Rightarrow> ('e, 'l) action list
     \<Rightarrow> (exn + unit) \<times> ('e, 'l) action list" where
  "process_message co event trace = error_handler 3 (process_message_body co event) 0 trace"

section \<open>Statements of the specification\<close>

text \<open>The definitions of this section follow the words of the specification; the
  theorems compare them with the definitions made from the code.\<close>

subsection \<open>An environment for the concrete examples\<close>

text \<open>A library whose strict parser knows one event body, whose queries find nothing and
  whose entity inference adds nothing; a processor with no rules; a sender with a
  request limit of 5 bytes and 3 retries.\<close>

definition example_body :: string where
  \<open>example_body = ''{"records":[{"category":5},{"Level":2}]}''\<close>

definition example_lib :: pylib where
  "example_lib =
     \<lparr>str_other = (\<lambda>v. ''?''),
      json_dumps = (\<lambda>v. ''?''),
      json_loads = (\<lambda>s. if s = example_body
                         then Some (JObj [(''records'',
                                 JList [JObj [(''category'', JInt 5)], JObj [(''Level'', JInt 2)] ])])
                         else None),
      json_loads_lenient = (\<lambda>s. None),
      jmespath_search = (\<lambda>p v. Inr JNull),
      infer_monitored_entity_id = (\<lambda>category parsed. Inr parsed)\<rparr>"

definition example_processor :: CustomProcessor where
  "example_processor =
     \<lparr>attribute_limit = 250, content_limit = 8192, truncated_mark = ''[TRUNCATED]'',
      metadata_engine = \<lparr>rules = [], default_rule = None\<rparr>,
      utcnow_isoformat = ''2026-11-04T07:25:00.123456+00:00''\<rparr>"

definition example_event :: RawEvent where
  "example_event =
     \<lparr>body_as_str = Inr example_body, get_offset = Inl AttributeError,
      event_offset = ''0'', sequence_number = 0\<rparr>"

definition example_sender :: LogSender where
  "example_sender =
     \<lparr>max_request_size = 5, max_events_per_request = 100, max_retries = 3, http_concurrency = 2\<rparr>"

subsection \<open>Resource identifiers\<close>

text \<open>A well-formed identifier has at least seven segments, of which segment 0 is
  \<^verbatim>\<open>subscriptions\<close>, segment 2 \<^verbatim>\<open>resourceGroups\<close> and segment 4 \<^verbatim>\<open>providers\<close>, compared
  without regard to case. The resource type takes the provider namespace and every
  odd-indexed segment of the middle segments (those from index 5 up to the last one,
  which is the name).\<close>

definition odd_indexed :: "'a list \<Rightarrow> 'a list" where
  "odd_indexed xs = map (\<lambda>i. xs ! i) (filter odd [0..<length xs])"

definition well_formed_parts :: "string list \<Rightarrow> bool" where
  "well_formed_parts parts =
     (7 \<le> length parts \<and> casefold (parts ! 0) = casefold ''subscriptions'' \<and>
      casefold (parts ! 2) = casefold ''resourceGroups'' \<and> casefold (parts ! 4) = casefold ''providers'')"

subsection \<open>Severity\<close>

text \<open>The severity that belongs to a level value, as amended: an integer goes through the
  table, with Informational for an unknown code, and a boolean counts as the integer 1 or
  0; a string, a null and a float are kept as they are; a list or an object gives
  Informational. The level field is \<^verbatim>\<open>Level\<close> if the record has it, else \<^verbatim>\<open>level\<close>.\<close>

fun amended_severity :: "json \<Rightarrow> json" where
  "amended_severity (JInt n) =
     JStr (if n = 1 then ''Critical'' else if n = 2 then ''Error''
           else if n = 3 then ''Warning'' else ''Informational'')"
| "amended_severity (JBool b) = JStr (if b then ''Critical'' else ''Informational'')"
| "amended_severity (JList xs) = JStr ''Informational''"
| "amended_severity (JObj d) = JStr ''Informational''"
| "amended_severity v = v"

definition level_field :: "pydict \<Rightarrow> json option" where
  "level_field record =
     (case map_of record ''Level'' of Some v \<Rightarrow> Some v | None \<Rightarrow> map_of record ''level'')"

definition example_resource_id :: string where
  "example_resource_id =
     ''/subscriptions/S/resourceGroups/G/providers/Microsoft.Compute/virtualMachines/V/extensions/E''"

subsection \<open>Field-length policy\<close>

text \<open>The serialized content is the value itself if it is a string and its JSON encoding
  otherwise. A string longer than the limit is cut so that the kept part and the marker
  together have the length of the limit; a string within the limit is unchanged. The
  keys \<^verbatim>\<open>severity\<close> and \<^verbatim>\<open>timestamp\<close> have no limit.\<close>

definition content_string :: "pylib \<Rightarrow> json \<Rightarrow> string" where
  "content_string lib v = (case v of JStr s \<Rightarrow> s | _ \<Rightarrow> json_dumps lib v)"

definition cut_with_mark :: "int \<Rightarrow> string \<Rightarrow> string \<Rightarrow> string" where
  "cut_with_mark limit mark s =
     (if int (length s) > limit then take (nat limit - length mark) s @ mark else s)"

definition unlimited_keys :: "string set" where
  "unlimited_keys = {''severity'', ''timestamp''}"

definition limited_value :: "pylib \<Rightarrow> CustomProcessor \<Rightarrow> string \<Rightarrow> json \<Rightarrow> string" where
  "limited_value lib self k v =
     (if k = ''content''
      then cut_with_mark (content_limit self) (truncated_mark self) (content_string lib v)
      else if k \<in> unlimited_keys then py_str lib v
      else cut_with_mark (attribute_limit self) (truncated_mark self) (py_str lib v))"

definition small_processor :: CustomProcessor where
  "small_processor =
     \<lparr>attribute_limit = 8, content_limit = 10, truncated_mark = ''[..]'',
      metadata_engine = \<lparr>rules = [], default_rule = None\<rparr>,
      utcnow_isoformat = ''2026-11-04T07:25:00.123456+00:00''\<rparr>"

subsection \<open>Rule evaluation\<close>

text \<open>The first rule, in load order, all of whose matchers match.\<close>

definition first_applicable :: "pylib \<Rightarrow> ConfigRule list \<Rightarrow> pydict \<Rightarrow> pydict \<Rightarrow> ConfigRule option" where
  "first_applicable lib rs record parsed =
     find (\<lambda>r. \<forall>m \<in> set (source_matchers r). matcher_match lib m record parsed) rs"

text \<open>Two rules that both match the category \<^verbatim>\<open>administrative\<close>, and a library whose
  query returns the pattern itself, so that one can see which rule was applied.\<close>

definition admin_rule :: ConfigRule where
  "admin_rule =
     \<lparr>entity_type_name = ''activity'',
      source_matchers = [new_SourceMatcher ''category'' ''$eq('Administrative')''],
      attributes = [\<lparr>attr_key = ''audit.action'', attr_pattern = ''operationName''\<rparr>]\<rparr>"

definition prefix_rule :: ConfigRule where
  "prefix_rule =
     \<lparr>entity_type_name = ''generic'',
      source_matchers = [new_SourceMatcher ''Category'' ''$prefix('admin')''],
      attributes = [\<lparr>attr_key = ''audit.identity'', attr_pattern = ''identity''\<rparr>]\<rparr>"

definition echo_lib :: pylib where
  "echo_lib = example_lib\<lparr>jmespath_search := (\<lambda>p v. Inr (JStr p))\<rparr>"

subsection \<open>Batches\<close>

text \<open>A sequence of batches is closed only when needed if every batch that is followed
  by another one was full by count, or could not take the first entry of the next batch
  without passing the byte limit. Entries of equal size that fit two to a batch come
  out in consecutive pairs, with a single last entry when their number is odd.\<close>

fun closed_when_needed :: "('a \<Rightarrow> nat) \<Rightarrow> int \<Rightarrow> int \<Rightarrow> 'a list list \<Rightarrow> bool" where
  "closed_when_needed e ms me (b # c # rest) =
     ((int (length b) \<ge> me \<or> int (sum_list (map e b) + e (hd c)) > ms)
      \<and> closed_when_needed e ms me (c # rest))"
| "closed_when_needed e ms me bs = True"

fun chunks2 :: "'a list \<Rightarrow> 'a list list" where
  "chunks2 (a # b # rest) = [a, b] # chunks2 rest"
| "chunks2 [a] = [ [a] ]"
| "chunks2 [] = []"

subsection \<open>Collaborators of the partition worker for the examples\<close>

text \<open>An event whose body cannot be decoded and which has no method \<^verbatim>\<open>get\<close>. A worker
  that extracts with \<^verbatim>\<open>extract_logs\<close> and whose delivery and checkpoint store work; one
  whose delivery returns False; one whose checkpoint store cannot write.\<close>

definition undecodable_event :: RawEvent where
  "undecodable_event =
     \<lparr>body_as_str = Inl UnicodeDecodeError, get_offset = Inl AttributeError,
      event_offset = ''1'', sequence_number = 1\<rparr>"

definition sdk_worker :: "(RawEvent, pydict option) collaborators" where
  "sdk_worker =
     \<lparr>co_extract_logs = extract_logs example_lib example_processor,
      co_send = (\<lambda>logs. Inr True),
      co_update_checkpoint = (\<lambda>event. Inr ())\<rparr>"

definition full_disk :: "(nat, string) collaborators" where
  "full_disk =
     \<lparr>co_extract_logs = (\<lambda>event. Inr [''entry'']),
      co_send = (\<lambda>logs. Inr True),
      co_update_checkpoint = (\<lambda>event. Inl (OtherException ''OSError''))\<rparr>"

definition refusing_send :: "(nat, string) collaborators" where
  "refusing_send =
     \<lparr>co_extract_logs = (\<lambda>event. Inr [''entry'']),
      co_send = (\<lambda>logs. Inr False),
      co_update_checkpoint = (\<lambda>event. Inr ())\<rparr>"

section \<open>Timestamp normalization\<close>

lemmas ts_defs = time_patterns_def bsl_def re_match_def is_digit_def digit_val_def digit_chars_def
  get_format_def startswith_def strptime_def directive_of_def plain_directive_def is_space_def
  num_candidates_def

lemma get_format_patterns: "map get_format time_patterns = [''%m/%d/%Y %H:%M:%S'', ''%m/%d/%Y %H:%M:%S'']"
  by (simp add: time_patterns_def bsl_def get_format_def startswith_def)

lemma slash_char_no_digit: "\<not> is_digit CHR ''/''" "\<not> is_digit CHR ''-''"
  by (simp_all add: is_digit_def digit_chars_def)

lemma match_first_shape:
  assumes "re_match (time_patterns ! 0) ts"
  shows "\<exists>a b c d rest. ts = a # b # c # d # CHR ''-'' # rest \<and> is_digit a \<and> is_digit b \<and> is_digit c \<and> is_digit d"
proof -
  have atoms: "re_compile (time_patterns ! 0) = replicate 4 ReDigit @ ReLit CHR ''-'' # re_compile (drop 6 (time_patterns ! 0))"
    by (simp add: time_patterns_def bsl_def is_digit_def digit_val_def digit_chars_def)
  obtain a ts1 where t1: "ts = a # ts1" using assms unfolding re_match_def atoms by (cases ts) (simp_all add: numeral_eq_Suc)
  obtain b ts2 where t2: "ts1 = b # ts2" using assms unfolding re_match_def atoms t1 by (cases ts1) (simp_all add: numeral_eq_Suc)
  obtain c ts3 where t3: "ts2 = c # ts3" using assms unfolding re_match_def atoms t1 t2 by (cases ts2) (simp_all add: numeral_eq_Suc)
  obtain d ts4 where t4: "ts3 = d # ts4" using assms unfolding re_match_def atoms t1 t2 t3 by (cases ts3) (simp_all add: numeral_eq_Suc)
  obtain e ts5 where t5: "ts4 = e # ts5" using assms unfolding re_match_def atoms t1 t2 t3 t4 by (cases ts4) (simp_all add: numeral_eq_Suc)
  show ?thesis using assms unfolding re_match_def atoms t1 t2 t3 t4 t5 by (simp add: numeral_eq_Suc)
qed

lemma slash_format: "parse_format ''%m/%d/%Y %H:%M:%S'' =
   [DirMonth, DirLit CHR ''/'', DirDay, DirLit CHR ''/'', DirYear, DirSpace, DirHour, DirLit CHR '':'', DirMinute, DirLit CHR '':'', DirSecond]"
  by (simp add: directive_of_def plain_directive_def is_space_def)

lemma month_then_slash_fails:
  assumes "is_digit b" "is_digit c"
  shows "run_directives (DirMonth # DirLit CHR ''/'' # ds) (a # b # c # rest) acc = None"
proof -
  have "b \<noteq> CHR ''/''" "c \<noteq> CHR ''/''" using assms slash_char_no_digit by auto
  then show ?thesis by (simp add: num_candidates_def)
qed

lemma strptime_slash_fails:
  assumes "is_digit b" "is_digit c"
  shows "strptime (a # b # c # rest) ''%m/%d/%Y %H:%M:%S'' = None"
proof -
  have H: "run_directives (parse_format ''%m/%d/%Y %H:%M:%S'') (a # b # c # rest) acc = None" for acc
    unfolding slash_format using assms by (rule month_then_slash_fails)
  show ?thesis unfolding strptime_def H by simp
qed

lemma second_pattern_no_match:
  assumes "is_digit c"
  shows "\<not> re_match (time_patterns ! 1) (a # b # c # rest)"
proof -
  have atoms: "re_compile (time_patterns ! 1) = ReDigit # ReDigit # ReLit CHR ''/'' # re_compile (drop 6 (time_patterns ! 1))"
    by (simp add: time_patterns_def bsl_def is_digit_def digit_val_def digit_chars_def numeral_eq_Suc)
  have "c \<noteq> CHR ''/''" using assms slash_char_no_digit by auto
  then show ?thesis unfolding re_match_def atoms by simp
qed

text \<open>With the format that belongs to the first pattern the example of the specification
  parses, and prints as the specification says.\<close>

lemma strptime_dash_format_example:
  "map_option isoformat_ms (strptime ''2024-01-01 10:00:00'' ''%Y-%m-%d %H:%M:%S'') = Some ''2024-01-01T10:00:00.000''"
  by (simp add: ts_defs valid_datetime_def days_in_month_def isoformat_ms_def pad2_def pad4_def digit_char_def)

text \<open>
  Claim C4: a timestamp that matches the first pattern (date-time with dashes) is parsed
  with the corresponding format and returned as an ISO-8601 string with milliseconds.
  The code does not do that. \<^verbatim>\<open>_get_format\<close> looks for the text \<^verbatim>\<open>202\<close> in the source of
  the pattern, which neither pattern contains, so both patterns get the format with
  slashes; parsing a timestamp with dashes then fails, the second pattern does not match
  it, and the result is the current time: for every timestamp that matches the first
  pattern, \<open>parse_datetime\<close> returns the clock's value.
\<close>

theorem parse_datetime_first_pattern_falls_back:
  assumes "re_match (time_patterns ! 0) timestamp"
  shows "parse_datetime self timestamp = utcnow_isoformat self"
proof -
  obtain a b c d rest where ts: "timestamp = a # b # c # d # CHR ''-'' # rest"
    and dg: "is_digit a" "is_digit b" "is_digit c" "is_digit d"
    using match_first_shape[OF assms] by blast
  have pats: "time_patterns = [time_patterns ! 0, time_patterns ! 1]"
    by (simp add: time_patterns_def)
  have fmt: "get_format (time_patterns ! 0) = ''%m/%d/%Y %H:%M:%S''"
    using get_format_patterns by (simp add: time_patterns_def)
  have fail: "strptime timestamp ''%m/%d/%Y %H:%M:%S'' = None"
    unfolding ts using dg by (intro strptime_slash_fails)
  have no2: "\<not> re_match (time_patterns ! 1) timestamp"
    unfolding ts using dg by (intro second_pattern_no_match)
  have "parse_datetime_loop [time_patterns ! 0, time_patterns ! 1] timestamp now = now" for now
    using fmt fail no2 by simp
  then show ?thesis unfolding parse_datetime_def using pats by metis
qed

theorem parse_datetime_first_pattern_falls_back_witness:
  "re_match (time_patterns ! 0) ''2024-01-01 10:00:00'' \<and>
   parse_datetime \<lparr>attribute_limit = 250, content_limit = 8192, truncated_mark = ''[TRUNCATED]'',
       metadata_engine = \<lparr>rules = [], default_rule = None\<rparr>,
       utcnow_isoformat = ''2026-11-04T07:25:00.123456+00:00''\<rparr> ''2024-01-01 10:00:00''
     = ''2026-11-04T07:25:00.123456+00:00''"
proof -
  have m: "re_match (time_patterns ! 0) ''2024-01-01 10:00:00''"
    by (simp add: time_patterns_def bsl_def re_match_def is_digit_def digit_val_def digit_chars_def numeral_eq_Suc)
  show ?thesis using m parse_datetime_first_pattern_falls_back[OF m] by simp
qed

section \<open>Transformation pipeline: extract_logs\<close>

lemma process_record_bad_category:
  "process_record lib self (JObj [(''category'', JInt n)]) = None"
  by (simp add: process_record_def deserialize_properties_def azure_properties_names_def has_key_def
      build_parsed_record_def extract_resource_info_def category_lower_def split: sum.splits)

text \<open>
  Claim C1: a record whose processing raises is dropped and contributes no element to
  the sequence that \<^verbatim>\<open>extract_logs\<close> returns, while its siblings are processed. The code
  processes the siblings but does not drop the record: \<^verbatim>\<open>_process_record\<close> returns
  \<^verbatim>\<open>None\<close> for it, and the comprehension filters on the input record
  (\<^verbatim>\<open>if record is not None\<close>), not on that result, so the returned list holds \<^verbatim>\<open>None\<close> at
  the record's position. Here the first record has the category 5, whose \<^verbatim>\<open>.lower()\<close>
  raises AttributeError.
\<close>

theorem extract_logs_keeps_None_of_failed_record:
  assumes "body_as_str event = Inr body" and "body \<noteq> []"
    and "json_loads lib body = Some (JObj [(''records'', JList [JObj [(''category'', JInt 5)], r])])"
    and "r \<noteq> JNull"
  shows "extract_logs lib self event = Inr [None, process_record lib self r]"
  using assms
  by (simp add: extract_logs_def parse_event_body_def get_records_def py_iter_def process_record_bad_category)

theorem extract_logs_keeps_None_of_failed_record_witness:
  "extract_logs example_lib example_processor example_event =
     Inr [None, Some [(''cloud.provider'', JStr ''Azure''), (''severity'', JStr ''Error'')] ]"
proof -
  have b: "body_as_str example_event = Inr example_body" by (simp add: example_event_def)
  have n: "example_body \<noteq> []" by (simp add: example_body_def)
  have l: "json_loads example_lib example_body =
      Some (JObj [(''records'', JList [JObj [(''category'', JInt 5)], JObj [(''Level'', JInt 2)] ])])"
    by (simp add: example_lib_def)
  have p: "process_record example_lib example_processor (JObj [(''Level'', JInt 2)]) =
      Some [(''cloud.provider'', JStr ''Azure''), (''severity'', JStr ''Error'')]"
    by (simp add: process_record_def deserialize_properties_def azure_properties_names_def has_key_def
      build_parsed_record_def extract_resource_info_def category_lower_def extract_severity_def
      azure_level_properties_def map_to_severity_def log_level_to_severity_dict_def
      metadata_apply_def example_processor_def convert_timestamp_def example_lib_def
      apply_field_limits_def truncate_value_def truncate_generic_field_def py_str_def)
  show ?thesis
    using extract_logs_keeps_None_of_failed_record[OF b n l, of example_processor] p by simp
qed

section \<open>Delivery engine\<close>

text \<open>The retry loop does run when \<^verbatim>\<open>_send_batch\<close> raises something that is not a
  \<^verbatim>\<open>ClientError\<close>: three attempts, with waits of 1.5 and 3 seconds.\<close>

lemma process_batch_retries_other_exceptions:
  "process_batch example_sender (\<lambda>attempt. RaisesOther TimeoutError) =
     (False, [Post 1, Sleep 1500, Post 2, Sleep 3000, Post 3])"
  unfolding process_batch_def
  by (subst attempt_loop.simps) (simp add: send_batch_def example_sender_def)

text \<open>
  Claim C2: a response with status 300 or above, or a network-level error, is one failed
  attempt, and the batch is retried after a wait until \<^verbatim>\<open>max_retries\<close> attempts have
  failed. The code does not retry in these two cases: \<^verbatim>\<open>_send_batch\<close> returns False for
  such a response and for \<^verbatim>\<open>aiohttp.ClientError\<close>, and \<^verbatim>\<open>_process_batch\<close> returns that
  value from its first iteration. One request is made, no wait, and the batch has failed.
\<close>

theorem process_batch_gives_up_after_first_response:
  assumes "1 \<le> max_retries self"
    and "(\<exists>status. server 1 = Response status \<and> 300 \<le> status) \<or> server 1 = RaisesClientError"
  shows "process_batch self server = (False, [Post 1])"
  using assms unfolding process_batch_def
  by (subst attempt_loop.simps) (auto simp: send_batch_def handle_response_def)

theorem process_batch_gives_up_after_first_response_witness:
  "process_batch example_sender (\<lambda>attempt. Response 500) = (False, [Post 1])"
proof -
  have a: "1 \<le> max_retries example_sender" by (simp add: example_sender_def)
  have b: "(\<exists>status. (\<lambda>attempt::int. Response 500) 1 = Response status \<and> 300 \<le> status)
     \<or> (\<lambda>attempt::int. Response 500) 1 = RaisesClientError" by simp
  show ?thesis by (rule process_batch_gives_up_after_first_response[OF a b])
qed

lemma batch_loop_all_oversized:
  "\<forall>log \<in> set logs. int (e log) > ms \<Longrightarrow>
     batch_loop e ms me logs cur sz = (if cur \<noteq> [] then [cur] else [])"
  by (induction logs) simp_all

text \<open>
  Claim C10: when the entries yield no batch, \<^verbatim>\<open>send\<close> returns True and issues no HTTP
  request; and the entries yield no batch when the list is empty or when every entry
  is larger than the maximum request size.
\<close>

theorem send_without_batches:
  "(prepare_batches e self logs = [] \<longrightarrow> send e self servers logs = Some (True, []))
   \<and> ((logs = [] \<or> (\<forall>log \<in> set logs. int (e log) > max_request_size self))
          \<longrightarrow> prepare_batches e self logs = [])"
proof -
  have "prepare_batches e self logs = []" if "\<forall>log \<in> set logs. int (e log) > max_request_size self"
    using batch_loop_all_oversized[OF that] by (simp add: prepare_batches_def batch_groups_def)
  moreover have "prepare_batches e self [] = []"
    by (simp add: prepare_batches_def batch_groups_def)
  ultimately show ?thesis by (auto simp: send_def)
qed

theorem send_without_batches_witness:
  "prepare_batches (\<lambda>x. 10) example_sender [1 :: nat, 2] = []
   \<and> send (\<lambda>x. 10) example_sender (\<lambda>i attempt. Response 500) [1 :: nat, 2] = Some (True, [])"
proof -
  have "\<forall>log \<in> set [1 :: nat, 2]. int ((\<lambda>x. 10) log) > max_request_size example_sender"
    by (simp add: example_sender_def)
  then show ?thesis
    using send_without_batches[of "\<lambda>x. 10" example_sender "[1 :: nat, 2]" "\<lambda>i attempt. Response 500"]
    by blast
qed

section \<open>Resource attribute extraction\<close>

lemmas casefold_defs = casefold_def lower_char_def upper_letters_def lower_letters_def

lemmas attr_defs = RESOURCE_ID_ATTRIBUTE_def SUBSCRIPTION_ATTRIBUTE_def RESOURCE_GROUP_ATTRIBUTE_def
  RESOURCE_TYPE_ATTRIBUTE_def RESOURCE_NAME_ATTRIBUTE_def

lemma filter_enum_aux:
  "map snd (filter (\<lambda>(index, part). odd index) (enumerate n xs)) =
   map (\<lambda>i. xs ! (i - n)) (filter odd [n..<n + length xs])"
proof (induction xs arbitrary: n)
  case Nil
  then show ?case by simp
next
  case (Cons x xs)
  have "map (\<lambda>i. (x # xs) ! (i - n)) (filter odd [Suc n..<Suc n + length xs])
      = map (\<lambda>i. xs ! (i - Suc n)) (filter odd [Suc n..<Suc n + length xs])"
    by (rule map_cong) (auto simp: nth_Cons')
  then show ?case using Cons.IH[of "Suc n"]
    by (simp add: upt_conv_Cons del: upt_Suc)
qed

lemma filter_enum_pos:
  "0 < n \<Longrightarrow> filter (\<lambda>(index, part). index = 0 \<or> index mod 2 \<noteq> 0) (enumerate n xs)
     = filter (\<lambda>(index, part). odd index) (enumerate n xs)"
  by (rule filter_cong) (auto simp: in_set_enumerate_eq odd_iff_mod_2_eq_one)

lemma resource_type_parts_of_Cons:
  "resource_type_parts_of (x # xs) = x # odd_indexed (x # xs)"
proof -
  have "map (\<lambda>i. xs ! (i - Suc 0)) (filter odd [Suc 0..<Suc (length xs)])
      = map (\<lambda>i. (x # xs) ! i) (filter odd [Suc 0..<Suc (length xs)])"
    by (rule map_cong) (auto simp: nth_Cons')
  then show ?thesis
    using filter_enum_aux[of "Suc 0" xs] filter_enum_pos[of "Suc 0" xs]
    by (simp add: resource_type_parts_of_def odd_indexed_def upt_conv_Cons del: upt_Suc)
qed

lemma middle_nonempty:
  assumes "7 \<le> length parts"
  shows "butlast (drop 5 parts) = parts ! 5 # butlast (drop 6 parts)"
proof -
  have "parts ! 5 # drop (Suc 5) parts = drop 5 parts"
    using assms by (intro Cons_nth_drop_Suc) simp
  then have "drop 5 parts = parts ! 5 # drop 6 parts" by simp
  moreover have "drop 6 parts \<noteq> []" using assms by simp
  ultimately show ?thesis by simp
qed

lemma casefold_literals:
  "casefold ''subscriptions'' = ''subscriptions''"
  "casefold ''resourceGroups'' = ''resourcegroups''"
  "casefold ''providers'' = ''providers''"
  by (simp_all add: casefold_defs)

lemma example_resource_id_parts:
  "resource_id_parts example_resource_id =
     [''subscriptions'', ''S'', ''resourceGroups'', ''G'', ''providers'', ''Microsoft.Compute'',
      ''virtualMachines'', ''V'', ''extensions'', ''E'']"
  by (simp add: example_resource_id_def resource_id_parts_def lstrip_def)

lemma odd_indexed_4: "odd_indexed [a, b, c, d] = [b, d]"
  by (simp add: odd_indexed_def upt_rec)

text \<open>
  Claim C6, as stated, fails for an identifier that violates the conditions: the code
  stores the identifier under \<^verbatim>\<open>azure.resource.id\<close> before it validates it, so one
  resource attribute is added to the entry.
\<close>

theorem extract_resource_id_attributes_counterexample:
  "\<not> well_formed_parts (resource_id_parts ''/subscriptions/s1'') \<and>
   extract_resource_id_attributes [(''cloud.provider'', JStr ''Azure'')] (JStr ''/subscriptions/s1'')
     = Inr [(''cloud.provider'', JStr ''Azure''), (''azure.resource.id'', JStr ''/subscriptions/s1'')]"
  by (simp add: well_formed_parts_def resource_id_parts_def lstrip_def extract_resource_id_str_def
      RESOURCE_ID_ATTRIBUTE_def)

text \<open>
  Claim C6, amended: for every identifier that is a string, no exception leaves the
  function and the identifier is stored under \<^verbatim>\<open>azure.resource.id\<close>. If the identifier is
  well formed, the entry also gets the subscription (segment 1), the resource group
  (segment 3), the resource name (the last segment) and the resource type, which is the
  provider namespace followed by every odd-indexed middle segment, joined with a slash;
  otherwise nothing else is added or changed.
\<close>

theorem extract_resource_id_attributes_of_string:
  "\<exists>p. extract_resource_id_attributes parsed (JStr rid) = Inr p \<and>
     (if well_formed_parts (resource_id_parts rid)
      then map_of p = (map_of parsed)
             (RESOURCE_ID_ATTRIBUTE \<mapsto> JStr rid,
              SUBSCRIPTION_ATTRIBUTE \<mapsto> JStr (resource_id_parts rid ! 1),
              RESOURCE_GROUP_ATTRIBUTE \<mapsto> JStr (resource_id_parts rid ! 3),
              RESOURCE_NAME_ATTRIBUTE \<mapsto> JStr (last (resource_id_parts rid)),
              RESOURCE_TYPE_ATTRIBUTE \<mapsto>
                JStr (join ''/'' (resource_id_parts rid ! 5
                        # odd_indexed (butlast (drop 5 (resource_id_parts rid))))))
      else map_of p = (map_of parsed)(RESOURCE_ID_ATTRIBUTE \<mapsto> JStr rid))"
proof (cases "well_formed_parts (resource_id_parts rid)")
  case True
  then have len: "7 \<le> length (resource_id_parts rid)" by (simp add: well_formed_parts_def)
  have ty: "resource_type_parts_of (butlast (drop 5 (resource_id_parts rid)))
      = resource_id_parts rid ! 5 # odd_indexed (butlast (drop 5 (resource_id_parts rid)))"
    using resource_type_parts_of_Cons middle_nonempty[OF len] by metis
  show ?thesis using True ty
    by (simp add: extract_resource_id_str_def well_formed_parts_def casefold_literals Let_def
        update_conv')
next
  case False
  then show ?thesis
    by (auto simp: extract_resource_id_str_def well_formed_parts_def casefold_literals Let_def
        update_conv')
qed

theorem extract_resource_id_attributes_of_string_witness:
  "well_formed_parts (resource_id_parts example_resource_id) \<and>
   (\<exists>p. extract_resource_id_attributes [] (JStr example_resource_id) = Inr p \<and>
      map_of p SUBSCRIPTION_ATTRIBUTE = Some (JStr ''S'') \<and>
      map_of p RESOURCE_GROUP_ATTRIBUTE = Some (JStr ''G'') \<and>
      map_of p RESOURCE_TYPE_ATTRIBUTE = Some (JStr ''Microsoft.Compute/virtualMachines/extensions'') \<and>
      map_of p RESOURCE_NAME_ATTRIBUTE = Some (JStr ''E''))"
proof -
  have wf: "well_formed_parts (resource_id_parts example_resource_id)"
    unfolding example_resource_id_parts by (simp add: well_formed_parts_def casefold_defs)
  obtain p where p: "extract_resource_id_attributes [] (JStr example_resource_id) = Inr p"
    and m: "map_of p = (map_of [])
             (RESOURCE_ID_ATTRIBUTE \<mapsto> JStr example_resource_id,
              SUBSCRIPTION_ATTRIBUTE \<mapsto> JStr (resource_id_parts example_resource_id ! 1),
              RESOURCE_GROUP_ATTRIBUTE \<mapsto> JStr (resource_id_parts example_resource_id ! 3),
              RESOURCE_NAME_ATTRIBUTE \<mapsto> JStr (last (resource_id_parts example_resource_id)),
              RESOURCE_TYPE_ATTRIBUTE \<mapsto>
                JStr (join ''/'' (resource_id_parts example_resource_id ! 5
                        # odd_indexed (butlast (drop 5 (resource_id_parts example_resource_id))))))"
    using extract_resource_id_attributes_of_string[of "[]" example_resource_id] wf by auto
  have "map_of p SUBSCRIPTION_ATTRIBUTE = Some (JStr ''S'')"
    "map_of p RESOURCE_GROUP_ATTRIBUTE = Some (JStr ''G'')"
    "map_of p RESOURCE_TYPE_ATTRIBUTE = Some (JStr ''Microsoft.Compute/virtualMachines/extensions'')"
    "map_of p RESOURCE_NAME_ATTRIBUTE = Some (JStr ''E'')"
    unfolding m example_resource_id_parts by (simp_all add: attr_defs odd_indexed_4)
  then show ?thesis using wf p by blast
qed

section \<open>Severity extraction\<close>

lemma map_to_severity_lookup:
  assumes "map_of record lp = Some v"
  shows "map_of (map_to_severity record parsed lp) = (map_of parsed)(''severity'' \<mapsto> amended_severity v)"
  using assms
  by (cases v)
     (simp_all add: map_to_severity_def log_level_to_severity_dict_def DEFAULT_SEVERITY_INFO_def
        update_conv' Let_def)

text \<open>
  Claim C7, as stated, fails for a level value that is a list: it is not numeric, and
  it is not used verbatim. Storing it succeeds, the validity check then cannot hash it,
  and the handler of the exception sets Informational.
\<close>

theorem extract_severity_counterexample:
  "extract_severity [(''Level'', JList [JStr ''Error''])] [(''cloud.provider'', JStr ''Azure'')]
     = [(''cloud.provider'', JStr ''Azure''), (''severity'', JStr ''Informational'')]"
  by (simp add: extract_severity_def azure_level_properties_def has_key_def map_to_severity_def
      DEFAULT_SEVERITY_INFO_def)

text \<open>
  Claim C7, amended: the severity is set from the level field, \<^verbatim>\<open>Level\<close> before \<^verbatim>\<open>level\<close>.
  An integer level maps 1 to Critical, 2 to Error, 3 to Warning, 4 and every other
  integer to Informational (a boolean counts as 1 or 0); a string, null or float level
  is used verbatim; a list or object level gives Informational; without a level field
  the severity is Informational. No other key of the entry changes.
\<close>

theorem extract_severity_amended:
  "map_of (extract_severity record parsed) =
     (map_of parsed)(''severity'' \<mapsto>
        (case level_field record of
           None \<Rightarrow> JStr ''Informational''
         | Some v \<Rightarrow> amended_severity v))"
proof (cases "map_of record ''Level''")
  case None
  note L = None
  show ?thesis
  proof (cases "map_of record ''level''")
    case None
    then show ?thesis using L
      by (simp add: extract_severity_def azure_level_properties_def has_key_def level_field_def
          DEFAULT_SEVERITY_INFO_def update_conv')
  next
    case (Some v)
    then show ?thesis using L map_to_severity_lookup[OF Some, of parsed]
      by (simp add: extract_severity_def azure_level_properties_def has_key_def level_field_def)
  qed
next
  case (Some v)
  then show ?thesis using map_to_severity_lookup[OF Some, of parsed]
    by (simp add: extract_severity_def azure_level_properties_def has_key_def level_field_def)
qed

theorem extract_severity_amended_witness:
  "map_of (extract_severity [(''Level'', JInt 2)] [(''cloud.provider'', JStr ''Azure'')]) ''severity''
     = Some (JStr ''Error'') \<and>
   map_of (extract_severity [(''level'', JStr ''Verbose'')] [(''cloud.provider'', JStr ''Azure'')]) ''severity''
     = Some (JStr ''Verbose'') \<and>
   map_of (extract_severity [(''category'', JStr ''Audit'')] [(''cloud.provider'', JStr ''Azure'')]) ''severity''
     = Some (JStr ''Informational'')"
  using extract_severity_amended[of "[(''Level'', JInt 2)]" "[(''cloud.provider'', JStr ''Azure'')]"]
    extract_severity_amended[of "[(''level'', JStr ''Verbose'')]" "[(''cloud.provider'', JStr ''Azure'')]"]
    extract_severity_amended[of "[(''category'', JStr ''Audit'')]" "[(''cloud.provider'', JStr ''Azure'')]"]
  by (simp add: level_field_def)

section \<open>Field-length policy\<close>

lemma py_take_nonneg: "0 \<le> n \<Longrightarrow> py_take n xs = take (nat n) xs"
  by (simp add: py_take_def)

lemma truncate_content_cut:
  assumes "int (length (truncated_mark self)) \<le> content_limit self"
  shows "truncate_content lib self c =
           cut_with_mark (content_limit self) (truncated_mark self) (content_string lib c)"
  using assms
  by (simp add: truncate_content_def cut_with_mark_def content_string_def Let_def py_take_nonneg
      nat_diff_distrib')

lemma truncate_generic_cut:
  assumes "int (length (truncated_mark self)) \<le> attribute_limit self"
  shows "truncate_generic_field lib self v =
           cut_with_mark (attribute_limit self) (truncated_mark self) (py_str lib v)"
  using assms
  by (simp add: truncate_generic_field_def cut_with_mark_def Let_def py_take_nonneg
      nat_diff_distrib')

lemma cut_with_mark_length:
  assumes "int (length mark) \<le> limit"
  shows "int (length (cut_with_mark limit mark s)) \<le> limit"
    and "int (length s) > limit \<Longrightarrow> int (length (cut_with_mark limit mark s)) = limit"
    and "int (length s) \<le> limit \<Longrightarrow> cut_with_mark limit mark s = s"
  using assms by (auto simp: cut_with_mark_def)

text \<open>
  Claim C8, as stated, fails when the truncation marker is longer than the limit: the
  bound of the slice, limit minus marker length, is then negative, Python counts it from
  the end of the string, and the result is longer than the limit. With the limit 2 and
  the marker \<^verbatim>\<open>[...]\<close> a content of 10 characters becomes one of 12.
\<close>

theorem truncate_value_counterexample:
  "truncate_value example_lib
      \<lparr>attribute_limit = 2, content_limit = 2, truncated_mark = ''[...]'',
        metadata_engine = \<lparr>rules = [], default_rule = None\<rparr>,
        utcnow_isoformat = ''2026-11-04T07:25:00.123456+00:00''\<rparr>
      ''content'' (JStr ''abcdefghij'') = ''abcdefg[...]''"
  by (simp add: truncate_value_def truncate_content_def py_take_def)

text \<open>
  Claim C8, amended: provided the truncation marker is no longer than the content limit
  and the attribute limit, every value of the entry is a string after the policy;
  the \<^verbatim>\<open>content\<close> value is its serialized form cut to the content limit,
  \<^verbatim>\<open>severity\<close> and \<^verbatim>\<open>timestamp\<close> are stringified and not truncated, and every other value is
  stringified and cut to the attribute limit; a cut value has exactly the length of the
  limit and ends with the marker, a value within the limit is unchanged, and no value
  of a limited key is longer than its limit.
\<close>

theorem apply_field_limits_amended:
  assumes "int (length (truncated_mark self)) \<le> content_limit self"
    and "int (length (truncated_mark self)) \<le> attribute_limit self"
  shows "apply_field_limits lib self record
           = map (\<lambda>(k, v). (k, JStr (limited_value lib self k v))) record
    \<and> (\<forall>(k, v) \<in> set (apply_field_limits lib self record).
          \<exists>s. v = JStr s
            \<and> (k = ''content'' \<longrightarrow> int (length s) \<le> content_limit self)
            \<and> (k \<noteq> ''content'' \<and> k \<notin> unlimited_keys \<longrightarrow> int (length s) \<le> attribute_limit self))
    \<and> (\<forall>limit s. int (length (truncated_mark self)) \<le> limit \<and> int (length s) > limit \<longrightarrow>
          int (length (cut_with_mark limit (truncated_mark self) s)) = limit
          \<and> (\<exists>kept. cut_with_mark limit (truncated_mark self) s = kept @ truncated_mark self))
    \<and> (\<forall>limit s. int (length s) \<le> limit \<longrightarrow> cut_with_mark limit (truncated_mark self) s = s)"
proof -
  have tv: "truncate_value lib self k v = limited_value lib self k v" for k v
    using truncate_content_cut[OF assms(1)] truncate_generic_cut[OF assms(2)]
    by (simp add: truncate_value_def limited_value_def unlimited_keys_def)
  have B: "apply_field_limits lib self record
           = map (\<lambda>(k, v). (k, JStr (limited_value lib self k v))) record"
    by (simp add: apply_field_limits_def tv)
  have C: "\<forall>(k, v) \<in> set (apply_field_limits lib self record).
          \<exists>s. v = JStr s
            \<and> (k = ''content'' \<longrightarrow> int (length s) \<le> content_limit self)
            \<and> (k \<noteq> ''content'' \<and> k \<notin> unlimited_keys \<longrightarrow> int (length s) \<le> attribute_limit self)"
    using cut_with_mark_length(1)[OF assms(1)] cut_with_mark_length(1)[OF assms(2)]
    by (auto simp: apply_field_limits_def tv limited_value_def)
  have D: "\<forall>limit s. int (length (truncated_mark self)) \<le> limit \<and> int (length s) > limit \<longrightarrow>
          int (length (cut_with_mark limit (truncated_mark self) s)) = limit
          \<and> (\<exists>kept. cut_with_mark limit (truncated_mark self) s = kept @ truncated_mark self)"
    using cut_with_mark_length(2) by (auto simp: cut_with_mark_def)
  have E: "\<forall>limit s. int (length s) \<le> limit \<longrightarrow> cut_with_mark limit (truncated_mark self) s = s"
    by (simp add: cut_with_mark_def)
  show ?thesis using B C D E by blast
qed

theorem apply_field_limits_amended_witness:
  "int (length (truncated_mark small_processor)) \<le> content_limit small_processor
   \<and> int (length (truncated_mark small_processor)) \<le> attribute_limit small_processor
   \<and> apply_field_limits example_lib small_processor
        [(''content'', JStr ''abcdefghijklmnop''), (''severity'', JStr ''Informational''),
         (''azure.resource.name'', JStr ''account-1''), (''cloud.provider'', JStr ''Azure'')]
      = [(''content'', JStr ''abcdef[..]''), (''severity'', JStr ''Informational''),
         (''azure.resource.name'', JStr ''acco[..]''), (''cloud.provider'', JStr ''Azure'')]"
proof -
  have a: "int (length (truncated_mark small_processor)) \<le> content_limit small_processor"
    and b: "int (length (truncated_mark small_processor)) \<le> attribute_limit small_processor"
    by (simp_all add: small_processor_def)
  show ?thesis
    using a b apply_field_limits_amended[OF a b, of example_lib
      "[(''content'', JStr ''abcdefghijklmnop''), (''severity'', JStr ''Informational''),
         (''azure.resource.name'', JStr ''account-1''), (''cloud.provider'', JStr ''Azure'')]"]
    by (simp add: limited_value_def cut_with_mark_def content_string_def py_str_def
        unlimited_keys_def small_processor_def)
qed

section \<open>Rule engine\<close>

lemma is_rule_applicable_all:
  "is_rule_applicable lib rule record parsed
     = (\<forall>m \<in> set (source_matchers rule). matcher_match lib m record parsed)"
  by (simp add: is_rule_applicable_def list_all_iff)

lemma apply_loop_find:
  "apply_loop lib rs dflt record parsed =
     (case first_applicable lib rs record parsed of
        Some r \<Rightarrow> apply_rule lib r parsed record
      | None \<Rightarrow> (case dflt of Some d \<Rightarrow> apply_rule lib d parsed record | None \<Rightarrow> parsed))"
  by (induction rs) (simp_all add: first_applicable_def is_rule_applicable_all)

lemma first_applicable_split:
  assumes "\<forall>q \<in> set pre. \<not> (\<forall>m \<in> set (source_matchers q). matcher_match lib m record parsed)"
    and "\<forall>m \<in> set (source_matchers r). matcher_match lib m record parsed"
  shows "first_applicable lib (pre @ r # post) record parsed = Some r"
  using assms by (induction pre) (auto simp: first_applicable_def)

lemma apply_attrs_all_raise:
  "\<forall>a \<in> set as. \<exists>e. jmespath_search lib (attr_pattern a) (JObj raw) = Inl e \<Longrightarrow>
     apply_attrs lib as parsed raw = parsed"
  by (induction as) auto

text \<open>
  Claim C9: \<^verbatim>\<open>apply\<close> returns for every record and never raises (a query that raises
  only skips its attribute); the ordinary rules are tried in load order and a rule
  matches iff all its matchers match; the attributes of the first matching rule are
  applied, whatever rules follow it; if no ordinary rule matches, the attributes of the
  default rule are applied when there is one, and the entry is unchanged otherwise.
\<close>

theorem metadata_apply_first_match:
  "metadata_apply lib engine record parsed =
     (case first_applicable lib (rules engine) record parsed of
        Some r \<Rightarrow> apply_rule lib r parsed record
      | None \<Rightarrow> (case default_rule engine of
                   Some d \<Rightarrow> apply_rule lib d parsed record
                 | None \<Rightarrow> parsed))
   \<and> (\<forall>pre r post.
         rules engine = pre @ r # post
         \<and> (\<forall>q \<in> set pre. \<not> (\<forall>m \<in> set (source_matchers q). matcher_match lib m record parsed))
         \<and> (\<forall>m \<in> set (source_matchers r). matcher_match lib m record parsed)
         \<longrightarrow> metadata_apply lib engine record parsed = apply_rule lib r parsed record)
   \<and> (\<forall>r. (\<forall>a \<in> set (attributes r). \<exists>e. jmespath_search lib (attr_pattern a) (JObj record) = Inl e)
         \<longrightarrow> apply_rule lib r parsed record = parsed)"
proof -
  have A: "metadata_apply lib engine record parsed =
     (case first_applicable lib (rules engine) record parsed of
        Some r \<Rightarrow> apply_rule lib r parsed record
      | None \<Rightarrow> (case default_rule engine of
                   Some d \<Rightarrow> apply_rule lib d parsed record
                 | None \<Rightarrow> parsed))"
    by (simp add: metadata_apply_def apply_loop_find)
  have B: "\<forall>pre r post.
         rules engine = pre @ r # post
         \<and> (\<forall>q \<in> set pre. \<not> (\<forall>m \<in> set (source_matchers q). matcher_match lib m record parsed))
         \<and> (\<forall>m \<in> set (source_matchers r). matcher_match lib m record parsed)
         \<longrightarrow> metadata_apply lib engine record parsed = apply_rule lib r parsed record"
  proof (intro allI impI, elim conjE)
    fix pre r post
    assume "rules engine = pre @ r # post"
      and "\<forall>q \<in> set pre. \<not> (\<forall>m \<in> set (source_matchers q). matcher_match lib m record parsed)"
      and "\<forall>m \<in> set (source_matchers r). matcher_match lib m record parsed"
    then show "metadata_apply lib engine record parsed = apply_rule lib r parsed record"
      using first_applicable_split[of pre lib "record" parsed r post] by (simp add: A)
  qed
  have C: "\<forall>r. (\<forall>a \<in> set (attributes r). \<exists>e. jmespath_search lib (attr_pattern a) (JObj record) = Inl e)
         \<longrightarrow> apply_rule lib r parsed record = parsed"
    using apply_attrs_all_raise by (simp add: apply_rule_def)
  show ?thesis using A B C by blast
qed

theorem metadata_apply_first_match_witness:
  "metadata_apply echo_lib \<lparr>rules = [admin_rule, prefix_rule], default_rule = None\<rparr>
      [(''category'', JStr ''administrative'')] [(''cloud.provider'', JStr ''Azure'')]
     = [(''cloud.provider'', JStr ''Azure''), (''audit.action'', JStr ''operationName'')]
   \<and> metadata_apply echo_lib \<lparr>rules = [prefix_rule, admin_rule], default_rule = None\<rparr>
      [(''category'', JStr ''administrative'')] [(''cloud.provider'', JStr ''Azure'')]
     = [(''cloud.provider'', JStr ''Azure''), (''audit.identity'', JStr ''identity'')]"
proof -
  have m1: "\<forall>m \<in> set (source_matchers admin_rule).
      matcher_match echo_lib m [(''category'', JStr ''administrative'')] [(''cloud.provider'', JStr ''Azure'')]"
    by (simp add: admin_rule_def new_SourceMatcher_def CONDITION_COMPARATOR_MAP_def
        SOURCE_VALUE_EXTRACTOR_MAP_def startswith_def casefold_defs matcher_match_def py_str_def)
  have m2: "\<forall>m \<in> set (source_matchers prefix_rule).
      matcher_match echo_lib m [(''category'', JStr ''administrative'')] [(''cloud.provider'', JStr ''Azure'')]"
    by (simp add: prefix_rule_def new_SourceMatcher_def CONDITION_COMPARATOR_MAP_def
        SOURCE_VALUE_EXTRACTOR_MAP_def startswith_def casefold_defs matcher_match_def py_str_def)
  have a1: "apply_rule echo_lib admin_rule [(''cloud.provider'', JStr ''Azure'')] [(''category'', JStr ''administrative'')]
     = [(''cloud.provider'', JStr ''Azure''), (''audit.action'', JStr ''operationName'')]"
    by (simp add: apply_rule_def admin_rule_def echo_lib_def)
  have a2: "apply_rule echo_lib prefix_rule [(''cloud.provider'', JStr ''Azure'')] [(''category'', JStr ''administrative'')]
     = [(''cloud.provider'', JStr ''Azure''), (''audit.identity'', JStr ''identity'')]"
    by (simp add: apply_rule_def prefix_rule_def echo_lib_def)
  show ?thesis
    using metadata_apply_first_match[of echo_lib "\<lparr>rules = [admin_rule, prefix_rule], default_rule = None\<rparr>"
        "[(''category'', JStr ''administrative'')]" "[(''cloud.provider'', JStr ''Azure'')]"]
      metadata_apply_first_match[of echo_lib "\<lparr>rules = [prefix_rule, admin_rule], default_rule = None\<rparr>"
        "[(''category'', JStr ''administrative'')]" "[(''cloud.provider'', JStr ''Azure'')]"]
      m1 m2 a1 a2
    by (simp add: first_applicable_def)
qed

section \<open>Batcher\<close>

lemma batch_loop_concat:
  "concat (batch_loop e ms me logs cur sz) = cur @ filter (\<lambda>l. int (e l) \<le> ms) logs"
  by (induction logs arbitrary: cur sz) (auto simp: Let_def)

lemma batch_loop_sizes:
  assumes "sz = sum_list (map e cur)" and "cur = [] \<or> int sz \<le> ms"
  shows "\<forall>b \<in> set (batch_loop e ms me logs cur sz). int (sum_list (map e b)) \<le> ms"
  using assms
proof (induction logs arbitrary: cur sz)
  case Nil
  then show ?case by auto
next
  case (Cons log logs)
  show ?case
  proof (cases "int (e log) > ms")
    case True
    then show ?thesis using Cons.IH[OF Cons.prems] by simp
  next
    case fits: False
    show ?thesis
    proof (cases "int (length cur) \<ge> me \<or> int (sz + e log) > ms")
      case True
      have "\<forall>b \<in> set (batch_loop e ms me logs [log] (e log)). int (sum_list (map e b)) \<le> ms"
        using fits by (intro Cons.IH) auto
      moreover have "int (sum_list (map e cur)) \<le> ms"
        using Cons.prems fits by auto
      ultimately show ?thesis using True fits by (simp add: Let_def)
    next
      case False
      have "\<forall>b \<in> set (batch_loop e ms me logs (cur @ [log]) (sz + e log)). int (sum_list (map e b)) \<le> ms"
        using False Cons.prems by (intro Cons.IH) auto
      then show ?thesis using False fits by (simp add: Let_def)
    qed
  qed
qed

lemma batch_loop_counts:
  assumes "1 \<le> me" and "sz = sum_list (map e cur)" and "int (length cur) \<le> me"
  shows "\<forall>b \<in> set (batch_loop e ms me logs cur sz). b \<noteq> [] \<and> int (length b) \<le> me"
  using assms
proof (induction logs arbitrary: cur sz)
  case Nil
  then show ?case by auto
next
  case (Cons log logs)
  show ?case
  proof (cases "int (e log) > ms")
    case True
    then show ?thesis using Cons.IH[OF Cons.prems] by simp
  next
    case fits: False
    show ?thesis
    proof (cases "int (length cur) \<ge> me \<or> int (sz + e log) > ms")
      case True
      have "\<forall>b \<in> set (batch_loop e ms me logs [log] (e log)). b \<noteq> [] \<and> int (length b) \<le> me"
        using Cons.prems(1) by (intro Cons.IH) auto
      moreover have "cur \<noteq> []" using True fits Cons.prems by auto
      ultimately show ?thesis using True fits Cons.prems(3) by (simp add: Let_def)
    next
      case False
      have "\<forall>b \<in> set (batch_loop e ms me logs (cur @ [log]) (sz + e log)). b \<noteq> [] \<and> int (length b) \<le> me"
        using False Cons.prems by (intro Cons.IH) auto
      then show ?thesis using False fits by (simp add: Let_def)
    qed
  qed
qed

lemma batch_loop_head:
  "cur \<noteq> [] \<Longrightarrow> \<exists>more rest. batch_loop e ms me logs cur sz = (cur @ more) # rest"
proof (induction logs arbitrary: cur sz)
  case Nil
  then show ?case by simp
next
  case (Cons log logs)
  show ?case
  proof (cases "int (e log) > ms")
    case True
    then show ?thesis using Cons.IH[OF Cons.prems] by simp
  next
    case fits: False
    show ?thesis
    proof (cases "int (length cur) \<ge> me \<or> int (sz + e log) > ms")
      case True
      then show ?thesis using fits by (simp add: Let_def)
    next
      case False
      obtain more rest where
        "batch_loop e ms me logs (cur @ [log]) (sz + e log) = ((cur @ [log]) @ more) # rest"
        using Cons.IH[of "cur @ [log]" "sz + e log"] by auto
      then show ?thesis using False fits by (simp add: Let_def)
    qed
  qed
qed

lemma batch_loop_closed_when_needed:
  assumes "sz = sum_list (map e cur)"
  shows "closed_when_needed e ms me (batch_loop e ms me logs cur sz)"
  using assms
proof (induction logs arbitrary: cur sz)
  case Nil
  then show ?case by simp
next
  case (Cons log logs)
  show ?case
  proof (cases "int (e log) > ms")
    case True
    then show ?thesis using Cons.IH[OF Cons.prems] by simp
  next
    case fits: False
    show ?thesis
    proof (cases "int (length cur) \<ge> me \<or> int (sz + e log) > ms")
      case True
      obtain more rest where
        hd: "batch_loop e ms me logs [log] (e log) = ([log] @ more) # rest"
        using batch_loop_head[of "[log]" e ms me logs "e log"] by auto
      have "closed_when_needed e ms me (batch_loop e ms me logs [log] (e log))"
        by (intro Cons.IH) simp
      then show ?thesis using True fits hd Cons.prems by (simp add: Let_def)
    next
      case False
      have "closed_when_needed e ms me (batch_loop e ms me logs (cur @ [log]) (sz + e log))"
        using Cons.prems by (intro Cons.IH) simp
      then show ?thesis using False fits by (simp add: Let_def)
    qed
  qed
qed

lemma batch_loop_pair_full:
  assumes "\<forall>l \<in> set logs. e l = s" and "e a = s" and "e b = s"
    and "0 < s" and "2 * int s \<le> ms" and "ms < 3 * int s" and "2 \<le> me"
  shows "batch_loop e ms me logs [a, b] (s + s) = [a, b] # batch_loop e ms me logs [] 0"
  using assms by (cases logs) (auto simp: Let_def)

lemma batch_loop_chunks2:
  assumes "\<forall>l \<in> set logs. e l = s"
    and "0 < s" and "2 * int s \<le> ms" and "ms < 3 * int s" and "2 \<le> me"
  shows "batch_loop e ms me logs [] 0 = chunks2 logs"
  using assms
proof (induction logs rule: chunks2.induct)
  case (1 a b rest)
  have "batch_loop e ms me (a # b # rest) [] 0 = batch_loop e ms me rest [a, b] (s + s)"
    using 1(2-) by (simp add: Let_def)
  also have "\<dots> = [a, b] # batch_loop e ms me rest [] 0"
    using 1(2-) by (intro batch_loop_pair_full) auto
  also have "batch_loop e ms me rest [] 0 = chunks2 rest"
    using 1 by simp
  finally show ?case by simp
next
  case (2 a)
  then show ?case by (simp add: Let_def)
next
  case 3
  then show ?case by simp
qed

lemma chunks2_lengths:
  "map length (chunks2 logs) = replicate (length logs div 2) 2 @ (if odd (length logs) then [1] else [])"
  by (induction logs rule: chunks2.induct) simp_all

text \<open>
  Claim C5, as stated, fails in its last part: entries of equal size that fit two to a
  batch do not always yield batches of 2 entries each. With three entries the second
  batch has one entry.
\<close>

theorem batch_groups_counterexample:
  "batch_groups (\<lambda>x. 2) example_sender [1 :: nat, 2, 3] = [ [1, 2], [3] ]"
  by (simp add: batch_groups_def example_sender_def)

text \<open>
  Claim C5, amended: an entry larger than the maximum request size appears in no batch;
  the other entries appear in input order, each in exactly one batch (the batches
  concatenated are the input without the oversized entries); the summed entry sizes of
  a batch never pass the byte limit and, for a count limit of at least 1, no batch is
  empty or has more entries than the count limit; a batch is closed only when the next
  entry would push it past one of the two limits, and the last batch is emitted when
  the input ends. In particular N entries of the same size s, with a byte limit of at
  least 2s and below 3s (2.5s for example) and a count limit of at least 2 (100 for
  example), give consecutive batches of 2 entries, and one last batch of 1 entry when N
  is odd.
\<close>

theorem batch_groups_amended:
  "concat (batch_groups e self logs) = filter (\<lambda>l. int (e l) \<le> max_request_size self) logs
   \<and> (\<forall>b \<in> set (batch_groups e self logs). int (sum_list (map e b)) \<le> max_request_size self)
   \<and> (1 \<le> max_events_per_request self \<longrightarrow>
        (\<forall>b \<in> set (batch_groups e self logs). b \<noteq> [] \<and> int (length b) \<le> max_events_per_request self))
   \<and> closed_when_needed e (max_request_size self) (max_events_per_request self) (batch_groups e self logs)
   \<and> map batch_logs (prepare_batches e self logs) = batch_groups e self logs
   \<and> ((\<forall>l \<in> set logs. e l = s) \<and> 0 < s \<and> 2 * int s \<le> max_request_size self
        \<and> max_request_size self < 3 * int s \<and> 2 \<le> max_events_per_request self
        \<longrightarrow> batch_groups e self logs = chunks2 logs
            \<and> map length (batch_groups e self logs)
                = replicate (length logs div 2) 2 @ (if odd (length logs) then [1] else []))"
proof -
  have A: "concat (batch_groups e self logs) = filter (\<lambda>l. int (e l) \<le> max_request_size self) logs"
    by (simp add: batch_groups_def batch_loop_concat)
  have B: "\<forall>b \<in> set (batch_groups e self logs). int (sum_list (map e b)) \<le> max_request_size self"
    unfolding batch_groups_def by (rule batch_loop_sizes) simp_all
  have C: "1 \<le> max_events_per_request self \<longrightarrow>
        (\<forall>b \<in> set (batch_groups e self logs). b \<noteq> [] \<and> int (length b) \<le> max_events_per_request self)"
    unfolding batch_groups_def using batch_loop_counts[of "max_events_per_request self" 0 e "[]"] by simp
  have D: "closed_when_needed e (max_request_size self) (max_events_per_request self) (batch_groups e self logs)"
    unfolding batch_groups_def by (rule batch_loop_closed_when_needed) simp
  have E: "map batch_logs (prepare_batches e self logs) = batch_groups e self logs"
    by (simp add: prepare_batches_def create_batch_def comp_def)
  have F: "(\<forall>l \<in> set logs. e l = s) \<and> 0 < s \<and> 2 * int s \<le> max_request_size self
        \<and> max_request_size self < 3 * int s \<and> 2 \<le> max_events_per_request self
        \<longrightarrow> batch_groups e self logs = chunks2 logs
            \<and> map length (batch_groups e self logs)
                = replicate (length logs div 2) 2 @ (if odd (length logs) then [1] else [])"
    using batch_loop_chunks2[of logs e s "max_request_size self" "max_events_per_request self"]
      chunks2_lengths[of logs]
    by (auto simp: batch_groups_def)
  show ?thesis using A B C D E F by blast
qed

theorem batch_groups_amended_witness:
  "batch_groups (\<lambda>x. 2) example_sender [1 :: nat, 2, 3, 4] = [ [1, 2], [3, 4] ]
   \<and> concat (batch_groups (\<lambda>x. if x = 2 then 9 else 2) example_sender [1 :: nat, 2, 3]) = [1, 3]"
proof -
  have h: "(\<forall>l \<in> set [1 :: nat, 2, 3, 4]. (\<lambda>x. 2) l = (2 :: nat)) \<and> 0 < (2 :: nat)
     \<and> 2 * int 2 \<le> max_request_size example_sender
     \<and> max_request_size example_sender < 3 * int 2 \<and> 2 \<le> max_events_per_request example_sender"
    by (simp add: example_sender_def)
  show ?thesis
    using h batch_groups_amended[of "\<lambda>x. 2" example_sender "[1 :: nat, 2, 3, 4]" 2]
      batch_groups_amended[of "\<lambda>x. if x = 2 then 9 else 2" example_sender "[1 :: nat, 2, 3]" 2]
    by (simp add: example_sender_def)
qed

section \<open>Partition worker\<close>

text \<open>\<^verbatim>\<open>send\<close> returns False as soon as one batch was refused, also when another batch was
  accepted; it raises nothing.\<close>

lemma send_False_when_a_batch_is_refused:
  "send (\<lambda>x. 2) example_sender (\<lambda>i attempt. if i = 0 then Response 200 else Response 500)
      [1, 2, 3 :: nat] = Some (False, [ [Post 1], [Post 1] ])"
proof -
  have b: "prepare_batches (\<lambda>x. 2) example_sender [1, 2, 3 :: nat]
      = [create_batch [1, 2], create_batch [3] ]"
    by (simp add: prepare_batches_def batch_groups_def example_sender_def)
  have u: "[0..<length [create_batch [1, 2 :: nat], create_batch [3] ] ] = [0, 1]"
    by (simp add: upt_rec)
  have p0: "process_batch example_sender (\<lambda>attempt. Response 200) = (True, [Post 1])"
    unfolding process_batch_def
    by (subst attempt_loop.simps) (simp add: send_batch_def handle_response_def example_sender_def)
  have p1: "process_batch example_sender (\<lambda>attempt. Response 500) = (False, [Post 1])"
    unfolding process_batch_def
    by (subst attempt_loop.simps) (simp add: send_batch_def handle_response_def example_sender_def)
  have c: "\<not> http_concurrency example_sender < 0" "http_concurrency example_sender \<noteq> 0"
    by (simp_all add: example_sender_def)
  show ?thesis unfolding send_def b Let_def u using c p0 p1 by simp
qed

lemma extract_logs_undecodable:
  "extract_logs lib self undecodable_event = Inl AttributeError"
  by (simp add: extract_logs_def event_error_def undecodable_event_def)

lemma process_record_example_level:
  "process_record example_lib example_processor (JObj [(''Level'', JInt 2)]) =
      Some [(''cloud.provider'', JStr ''Azure''), (''severity'', JStr ''Error'')]"
  by (simp add: process_record_def deserialize_properties_def azure_properties_names_def has_key_def
      build_parsed_record_def extract_resource_info_def category_lower_def extract_severity_def
      azure_level_properties_def map_to_severity_def log_level_to_severity_dict_def
      metadata_apply_def example_processor_def convert_timestamp_def example_lib_def
      apply_field_limits_def truncate_value_def truncate_generic_field_def py_str_def)

lemma extract_logs_example_event:
  "extract_logs example_lib example_processor example_event =
     Inr [None, Some [(''cloud.provider'', JStr ''Azure''), (''severity'', JStr ''Error'')] ]"
proof -
  have l: "json_loads example_lib example_body =
      Some (JObj [(''records'', JList [JObj [(''category'', JInt 5)], JObj [(''Level'', JInt 2)] ])])"
    by (simp add: example_lib_def)
  have n: "example_body \<noteq> []" by (simp add: example_body_def)
  show ?thesis
    using l n process_record_example_level
    by (simp add: extract_logs_def example_event_def parse_event_body_def get_records_def py_iter_def
        process_record_bad_category)
qed

text \<open>
  Claim C3, as stated, fails: the checkpoint is not updated only on successful
  completion of delivery. When \<^verbatim>\<open>send\<close> returns False, \<^verbatim>\<open>_send_logs_safely\<close> logs
  \<^verbatim>\<open>Partial logs failed to send\<close> and returns, \<^verbatim>\<open>process\<close> returns, and the handler
  updates the checkpoint for the event whose entries were not delivered.
\<close>

theorem process_message_counterexample:
  "process_message refusing_send 7 [] = (Inr (), [Sent [''entry''] False, Checkpointed 7])"
  unfolding process_message_def
  by (subst error_handler.simps)
     (simp add: process_message_body_def process_def send_logs_safely_def refusing_send_def)

text \<open>
  Claim C3, amended: for every delivered event the handler runs the pipeline (extract,
  then deliver) first, and updates the checkpoint for that event as its last action,
  exactly when the pipeline returned without raising and the update itself did not
  raise. The pipeline returns without raising when extraction returns and delivery, if
  there is anything to deliver, returns a result, True or False: a refused delivery is
  logged and does not hold the checkpoint back. The pipeline itself updates no
  checkpoint. If a step raises (extraction, delivery or the checkpoint update), no
  checkpoint update is recorded for the event, and a ProcessingError leaves the handler
  through the retry decorator, which does not run the body again.
\<close>

theorem process_message_checkpoint:
  "(\<exists>acts. snd (process co event trace) = trace @ acts \<and> (\<forall>a \<in> set acts. \<forall>e. a \<noteq> Checkpointed e))
   \<and> (fst (process co event trace) = Inr ()
        \<longleftrightarrow> (\<exists>logs. co_extract_logs co event = Inr logs \<and> (logs = [] \<or> (\<exists>ok. co_send co logs = Inr ok))))
   \<and> (fst (process co event trace) = Inr () \<and> co_update_checkpoint co event = Inr ()
        \<longrightarrow> process_message co event trace = (Inr (), snd (process co event trace) @ [Checkpointed event]))
   \<and> ((\<exists>e. fst (process co event trace) = Inl e) \<or> (\<exists>e. co_update_checkpoint co event = Inl e)
        \<longrightarrow> process_message co event trace
              = (Inl (ProcessingError ''Event processing failed''), snd (process co event trace)))
   \<and> (\<exists>acts. snd (process_message co event trace) = trace @ acts
        \<and> (fst (process_message co event trace) = Inr ()
             \<longrightarrow> (\<exists>before. acts = before @ [Checkpointed event]
                    \<and> (\<forall>a \<in> set before. \<forall>e. a \<noteq> Checkpointed e)))
        \<and> (fst (process_message co event trace) \<noteq> Inr ()
             \<longrightarrow> (\<forall>a \<in> set acts. \<forall>e. a \<noteq> Checkpointed e)))"
proof -
  have A: "\<exists>acts. snd (process co event trace) = trace @ acts \<and> (\<forall>a \<in> set acts. \<forall>e. a \<noteq> Checkpointed e)"
    by (auto simp: process_def send_logs_safely_def split: sum.splits)
  have B: "fst (process co event trace) = Inr ()
        \<longleftrightarrow> (\<exists>logs. co_extract_logs co event = Inr logs \<and> (logs = [] \<or> (\<exists>ok. co_send co logs = Inr ok)))"
    by (auto simp: process_def send_logs_safely_def split: sum.splits)
  have once: "process_message co event trace = process_message_body co event trace"
    unfolding process_message_def
    by (subst error_handler.simps)
       (auto simp: process_message_body_def split: prod.splits sum.splits exn.splits)
  have C: "fst (process co event trace) = Inr () \<and> co_update_checkpoint co event = Inr ()
        \<longrightarrow> process_message co event trace = (Inr (), snd (process co event trace) @ [Checkpointed event])"
    unfolding once by (auto simp: process_message_body_def split: prod.splits sum.splits)
  have D: "(\<exists>e. fst (process co event trace) = Inl e) \<or> (\<exists>e. co_update_checkpoint co event = Inl e)
        \<longrightarrow> process_message co event trace
              = (Inl (ProcessingError ''Event processing failed''), snd (process co event trace))"
    unfolding once by (auto simp: process_message_body_def split: prod.splits sum.splits)
  obtain acts where acts: "snd (process co event trace) = trace @ acts"
    and nocp: "\<forall>a \<in> set acts. \<forall>e. a \<noteq> Checkpointed e"
    using A by blast
  have E: "\<exists>acts. snd (process_message co event trace) = trace @ acts
        \<and> (fst (process_message co event trace) = Inr ()
             \<longrightarrow> (\<exists>before. acts = before @ [Checkpointed event]
                    \<and> (\<forall>a \<in> set before. \<forall>e. a \<noteq> Checkpointed e)))
        \<and> (fst (process_message co event trace) \<noteq> Inr ()
             \<longrightarrow> (\<forall>a \<in> set acts. \<forall>e. a \<noteq> Checkpointed e))"
  proof (cases "fst (process co event trace) = Inr () \<and> co_update_checkpoint co event = Inr ()")
    case True
    then have "process_message co event trace = (Inr (), trace @ (acts @ [Checkpointed event]))"
      using C acts by simp
    then show ?thesis using nocp by (intro exI[of _ "acts @ [Checkpointed event]"]) auto
  next
    case False
    then have "(\<exists>e. fst (process co event trace) = Inl e) \<or> (\<exists>e. co_update_checkpoint co event = Inl e)"
      by (cases "fst (process co event trace)"; cases "co_update_checkpoint co event") auto
    then have "process_message co event trace
        = (Inl (ProcessingError ''Event processing failed''), trace @ acts)"
      using D acts by simp
    then show ?thesis using nocp by (intro exI[of _ acts]) auto
  qed
  show ?thesis using A B C D E by blast
qed

theorem process_message_checkpoint_witness:
  "process_message sdk_worker undecodable_event []
     = (Inl (ProcessingError ''Event processing failed''), [])
   \<and> process_message sdk_worker example_event []
     = (Inr (), [Sent [None, Some [(''cloud.provider'', JStr ''Azure''), (''severity'', JStr ''Error'')] ] True,
                 Checkpointed example_event])
   \<and> process_message full_disk 7 []
     = (Inl (ProcessingError ''Event processing failed''), [Sent [''entry''] True])"
proof -
  have f: "process sdk_worker undecodable_event [] = (Inl AttributeError, [])"
    by (simp add: process_def sdk_worker_def extract_logs_undecodable)
  have w: "process sdk_worker example_event []
      = (Inr (), [Sent [None, Some [(''cloud.provider'', JStr ''Azure''), (''severity'', JStr ''Error'')] ] True])"
    by (simp add: process_def send_logs_safely_def sdk_worker_def extract_logs_example_event)
  have u: "co_update_checkpoint sdk_worker example_event = Inr ()" by (simp add: sdk_worker_def)
  have d: "process full_disk 7 [] = (Inr (), [Sent [''entry''] True])"
    by (simp add: process_def send_logs_safely_def full_disk_def)
  have du: "co_update_checkpoint full_disk 7 = Inl (OtherException ''OSError'')"
    by (simp add: full_disk_def)
  show ?thesis
    using process_message_checkpoint[of sdk_worker undecodable_event "[]"]
      process_message_checkpoint[of sdk_worker example_event "[]"]
      process_message_checkpoint[of full_disk 7 "[]"] f w u d du
    by simp
qed

end
